theory Spec2Isabelle
  imports Complex_Main "HOL-Library.Sublist"
begin

section \<open>JavaScript values the server handles\<close>

text \<open>
  The values that travel through the tool handlers: tool arguments, log metadata and
  Datadog responses. Numbers are passed along, compared and written as text, never
  computed with, so they are modelled as reals. An object is its list of properties.
\<close>

datatype js_value =
    JUndefined
  | JNull
  | JBool bool
  | JNumber real
  | JString string
  | JArray "js_value list"
  | JObject "(string \<times> js_value) list"

type_synonym js_object = "(string \<times> js_value) list"

text \<open>
  What a \<open>throw\<close> or a rejected promise carries: an instance of \<open>Error\<close> with
  its message, or any other value.
\<close>

datatype js_thrown = ErrorInstance string | NonError js_value

text \<open>\<open>Array.prototype.join\<close> on an array of strings.\<close>

fun join :: "string \<Rightarrow> string list \<Rightarrow> string" where
  "join sep [] = []"
| "join sep [x] = x"
| "join sep (x # y # ys) = x @ sep @ join sep (y # ys)"

section \<open>JSON text (the builtins \<open>JSON.stringify\<close> and \<open>JSON.parse\<close>)\<close>

text \<open>
  The handlers call \<open>JSON.stringify(response, null, 2)\<close>, and their callers read the
  text back with \<open>JSON.parse\<close>. Both are builtins of the language; they are modelled
  after their definition in ECMAScript (clause 25.5). Characters are 8-bit here.
\<close>

subsection \<open>Digits\<close>


definition digit_char :: "nat \<Rightarrow> char" where
  "digit_char d = char_of (48 + d mod 10)"

text \<open>The decimal digits of a natural number, and the number a string of digits denotes.\<close>

fun decimal :: "nat \<Rightarrow> string" where
  "decimal n = (if n < 10 then [digit_char n] else decimal (n div 10) @ [digit_char (n mod 10)])"


definition hex_digit :: "nat \<Rightarrow> char" where
  "hex_digit d = (if d mod 16 < 10 then char_of (48 + d mod 16) else char_of (87 + d mod 16))"


subsection \<open>\<open>JSON.stringify(value, null, 2)\<close>\<close>

text \<open>
  \<open>QuoteJSONString\<close>: the string between double quotes. Backspace, tab, line
  feed, form feed and carriage return are written as a backslash and the letter b, t,
  n, f, r; the double quote and the backslash after a backslash; any other character
  below the space as a backslash, the letter u and four hexadecimal digits.
\<close>

definition quote_char :: "char \<Rightarrow> string" where
  "quote_char c =
     (if c = CHR 0x08 then [CHR 0x5C, CHR ''b'']
      else if c = CHR 0x09 then [CHR 0x5C, CHR ''t'']
      else if c = CHR 0x0A then [CHR 0x5C, CHR ''n'']
      else if c = CHR 0x0C then [CHR 0x5C, CHR ''f'']
      else if c = CHR 0x0D then [CHR 0x5C, CHR ''r'']
      else if c = CHR 0x22 then [CHR 0x5C, CHR 0x22]
      else if c = CHR 0x5C then [CHR 0x5C, CHR 0x5C]
      else if (of_char c :: nat) < 32
        then [CHR 0x5C, CHR ''u'', CHR ''0'', CHR ''0'',
              hex_digit (of_char c div 16), hex_digit (of_char c mod 16)]
      else [c])"

definition QuoteJSONString :: "string \<Rightarrow> string" where
  "QuoteJSONString s = CHR 0x22 # concat (map quote_char s) @ [CHR 0x22]"

text \<open>
  The text of a number. A whole number of magnitude at most \<open>2 ^ 53\<close> is written as
  its decimal digits, with a minus sign if negative. For any other number the digits are
  those \<open>Number::toString\<close> chooses (the shortest that read back as the same double,
  in exponent form from \<open>10 ^ 21\<close>); that choice is the parameter
  \<open>Number_toString\<close>.
\<close>

definition integer_text :: "int \<Rightarrow> string" where
  "integer_text i = (if i < 0 then CHR ''-'' # decimal (nat (- i)) else decimal (nat i))"

definition number_text :: "(real \<Rightarrow> string) \<Rightarrow> real \<Rightarrow> string" where
  "number_text Number_toString n =
     (if n = of_int \<lfloor>n\<rfloor> \<and> \<bar>n\<bar> \<le> 2 ^ 53 then integer_text \<lfloor>n\<rfloor> else Number_toString n)"

text \<open>
  The third argument \<open>2\<close> makes the gap two spaces. \<open>wrap\<close> is the common end of
  \<open>SerializeJSONObject\<close> and \<open>SerializeJSONArray\<close>: with no member the two
  brackets; otherwise the members one per line, indented by the gap more than the line
  of the brackets (\<open>stepback\<close>), and separated by a comma.
\<close>

definition gap :: string where
  "gap = ''  ''"

definition wrap :: "char \<Rightarrow> char \<Rightarrow> string \<Rightarrow> string list \<Rightarrow> string" where
  "wrap opening closing stepback partial =
     (if partial = [] then [opening, closing]
      else [opening] @ [CHR 0x0A] @ (stepback @ gap)
           @ join ([CHR '','', CHR 0x0A] @ (stepback @ gap)) partial
           @ [CHR 0x0A] @ stepback @ [closing])"

text \<open>
  \<open>SerializeJSONProperty\<close> gives no text for \<open>undefined\<close>. An array writes
  \<open>null\<close> in the place of such an element; an object leaves such a property out.
  \<open>SerializeJSONArray\<close> and \<open>SerializeJSONObject\<close> here return the list
  \<open>partial\<close> of the members' texts, at the indentation of the members.
\<close>

fun SerializeJSONProperty :: "(real \<Rightarrow> string) \<Rightarrow> string \<Rightarrow> js_value \<Rightarrow> string option"
  and SerializeJSONArray :: "(real \<Rightarrow> string) \<Rightarrow> string \<Rightarrow> js_value list \<Rightarrow> string list"
  and SerializeJSONObject :: "(real \<Rightarrow> string) \<Rightarrow> string \<Rightarrow> js_object \<Rightarrow> string list" where
  "SerializeJSONProperty Number_toString indent JUndefined = None"
| "SerializeJSONProperty Number_toString indent JNull = Some ''null''"
| "SerializeJSONProperty Number_toString indent (JBool b) = Some (if b then ''true'' else ''false'')"
| "SerializeJSONProperty Number_toString indent (JNumber n) = Some (number_text Number_toString n)"
| "SerializeJSONProperty Number_toString indent (JString s) = Some (QuoteJSONString s)"
| "SerializeJSONProperty Number_toString indent (JArray xs) =
     Some (wrap (CHR ''['') (CHR '']'') indent (SerializeJSONArray Number_toString (indent @ gap) xs))"
| "SerializeJSONProperty Number_toString indent (JObject props) =
     Some (wrap (CHR ''{'') (CHR ''}'') indent (SerializeJSONObject Number_toString (indent @ gap) props))"
| "SerializeJSONArray Number_toString indent [] = []"
| "SerializeJSONArray Number_toString indent (x # xs) =
     (case SerializeJSONProperty Number_toString indent x of None \<Rightarrow> ''null'' | Some text \<Rightarrow> text)
       # SerializeJSONArray Number_toString indent xs"
| "SerializeJSONObject Number_toString indent [] = []"
| "SerializeJSONObject Number_toString indent (p # props) =
     (case SerializeJSONProperty Number_toString indent (snd p) of
        None \<Rightarrow> SerializeJSONObject Number_toString indent props
      | Some text \<Rightarrow>
          (QuoteJSONString (fst p) @ '': '' @ text) # SerializeJSONObject Number_toString indent props)"

text \<open>
  \<open>JSON.stringify(value, null, 2)\<close>. Its result is a string for every value but
  \<open>undefined\<close>; the handlers pass an object or an array.
\<close>

definition JSON_stringify :: "(real \<Rightarrow> string) \<Rightarrow> js_value \<Rightarrow> string" where
  "JSON_stringify Number_toString v = the (SerializeJSONProperty Number_toString [] v)"

subsection \<open>\<open>JSON.parse(text)\<close>\<close>
















subsection \<open>Values that JSON text can carry\<close>



section \<open>Domains (shared/domains.ts)\<close>

type_synonym Domain = string

definition ALL_DOMAINS :: "Domain list" where
  "ALL_DOMAINS = [''metrics'', ''logs'', ''monitors'', ''traces'']"

text \<open>
  The \<open>for\<close> loop of \<open>parseDomains\<close>: \<open>validDomains\<close> is the array built so
  far; the first string outside \<open>ALL_DOMAINS\<close> throws.
\<close>

fun parseDomains_loop :: "string list \<Rightarrow> Domain list \<Rightarrow> js_thrown + Domain list" where
  "parseDomains_loop [] validDomains = Inr validDomains"
| "parseDomains_loop (domain # rest) validDomains =
     (if domain \<in> set ALL_DOMAINS
      then parseDomains_loop rest (validDomains @ [domain])
      else Inl (ErrorInstance
        (''Invalid domain: '' @ domain @ ''. Valid domains: '' @ join '', '' ALL_DOMAINS)))"

definition parseDomains :: "string list \<Rightarrow> js_thrown + Domain list" where
  "parseDomains domains =
     (case parseDomains_loop domains [] of
        Inl e \<Rightarrow> Inl e
      | Inr validDomains \<Rightarrow>
          Inr (if length validDomains > 0 then validDomains else ALL_DOMAINS))"

definition isDomainEnabled :: "Domain \<Rightarrow> Domain list \<Rightarrow> bool" where
  "isDomainEnabled domain enabledDomains \<longleftrightarrow> domain \<in> set enabledDomains"

section \<open>Datadog API requests and the process state\<close>

text \<open>
  The request objects the handlers build. \<open>search_request\<close> is the shape
  \<open>{filter: {query, from, to}, page: {limit}, sort}\<close> that the logs request has as
  its body and the spans request as \<open>body.data.attributes\<close>.
\<close>

record MetricsApiQueryMetricsRequest =
  qm_from :: real
  qm_to :: real
  qm_query :: string

record search_filter =
  filter_query :: string
  filter_from :: string
  filter_to :: string

record search_page =
  page_limit :: real

record search_request =
  sr_filter :: search_filter
  sr_page :: search_page
  sr_sort :: string

record LogsApiListLogsRequest =
  logs_body :: search_request

record spans_data =
  data_attributes :: search_request
  data_type :: string

record spans_body =
  body_data :: spans_data

record SpansApiListSpansRequest =
  spans_body :: spans_body

record MonitorsApiGetMonitorRequest =
  gm_monitorId :: real

text \<open>\<open>params: any = {}\<close> of \<open>list_monitors\<close>: each property is set or absent.\<close>

record MonitorsApiListMonitorsRequest =
  lm_tags :: "string option"
  lm_name :: "string option"

datatype api_call =
    QueryMetricsCall MetricsApiQueryMetricsRequest
  | ListLogsCall LogsApiListLogsRequest
  | GetMonitorCall MonitorsApiGetMonitorRequest
  | ListMonitorsCall MonitorsApiListMonitorsRequest
  | ListSpansCall SpansApiListSpansRequest

text \<open>
  An API method takes the request and resolves with the response or rejects with what
  was thrown. By their TypeScript types the responses are objects, and the response of
  \<open>listMonitors\<close> is an array of objects.
\<close>

type_synonym MetricsApi = "MetricsApiQueryMetricsRequest \<Rightarrow> js_thrown + js_object"
type_synonym LogsApi = "LogsApiListLogsRequest \<Rightarrow> js_thrown + js_object"
type_synonym SpansApi = "SpansApiListSpansRequest \<Rightarrow> js_thrown + js_object"

record MonitorsApi =
  getMonitor :: "MonitorsApiGetMonitorRequest \<Rightarrow> js_thrown + js_object"
  listMonitors :: "MonitorsApiListMonitorsRequest \<Rightarrow> js_thrown + js_object list"

record DatadogAPIs =
  v1_metrics :: MetricsApi
  v1_monitors :: MonitorsApi
  v2_logs :: LogsApi
  v2_spans :: SpansApi

text \<open>
  The state of the server process that the code under study changes: what was written to
  standard output (the stream of the framed protocol messages), what was written to
  standard error, and the requests sent to Datadog, in order.
\<close>

record world =
  stdout :: "string list"
  stderr :: "string list"
  api_calls :: "api_call list"

text \<open>
  An asynchronous computation: it changes the process state and either returns or
  throws. \<open>try_catch\<close> is \<open>try { body } catch (error) { handler }\<close>: what the body
  did to the state before it threw stays done.
\<close>

type_synonym 'a js_async = "world \<Rightarrow> (js_thrown + 'a) \<times> world"

definition try_catch :: "'a js_async \<Rightarrow> (js_thrown \<Rightarrow> 'a js_async) \<Rightarrow> 'a js_async" where
  "try_catch body handler w =
     (case body w of
        (Inr r, w') \<Rightarrow> (Inr r, w')
      | (Inl error, w') \<Rightarrow> handler error w')"

text \<open>\<open>await api.method(request)\<close>: the request is sent, the promise settles.\<close>

definition await_call ::
  "('req \<Rightarrow> api_call) \<Rightarrow> ('req \<Rightarrow> js_thrown + 'resp) \<Rightarrow> 'req \<Rightarrow> world \<Rightarrow> (js_thrown + 'resp) \<times> world" where
  "await_call kind method request w = (method request, w\<lparr>api_calls := api_calls w @ [kind request]\<rparr>)"

section \<open>Logger (logger.ts, the second half of shared/domains.ts)\<close>

datatype stream = Stdout | Stderr

record log_info =
  info_level :: string
  info_message :: string
  info_meta :: js_object

text \<open>
  The logger as \<open>winston.createLogger\<close> is given it: a level, a format and the
  transports, each a \<open>winston.transports.Stream\<close> on a stream of the process. The
  format (timestamp, errors, json) turns a record into the line written; it reads the
  clock, so it is a parameter.
\<close>

record Logger =
  logger_level :: string
  logger_format :: "log_info \<Rightarrow> string"
  logger_transports :: "stream list"

text \<open>
  \<open>level: process.env.LOG_LEVEL || 'info'\<close>: an unset or empty variable gives
  \<open>info\<close>.
\<close>

definition logger :: "(log_info \<Rightarrow> string) \<Rightarrow> string option \<Rightarrow> Logger" where
  "logger fmt LOG_LEVEL =
     \<lparr>logger_level = (case LOG_LEVEL of None \<Rightarrow> ''info'' | Some l \<Rightarrow> if l = [] then ''info'' else l),
      logger_format = fmt,
      logger_transports = [Stderr]\<rparr>"

text \<open>
  winston's default (npm) levels. The levels of the records are these seven: a record is
  made by the method of the logger that bears the name of its level
  (\<open>logger.error\<close>, ..., \<open>logger.silly\<close>).
\<close>

datatype npm_level =
    Level_error | Level_warn | Level_info | Level_http | Level_verbose | Level_debug | Level_silly

fun level_name :: "npm_level \<Rightarrow> string" where
  "level_name Level_error = ''error''"
| "level_name Level_warn = ''warn''"
| "level_name Level_info = ''info''"
| "level_name Level_http = ''http''"
| "level_name Level_verbose = ''verbose''"
| "level_name Level_debug = ''debug''"
| "level_name Level_silly = ''silly''"

definition npm_levels :: "string \<Rightarrow> nat option" where
  "npm_levels = map_of
     [(''error'', 0), (''warn'', 1), (''info'', 2), (''http'', 3),
      (''verbose'', 4), (''debug'', 5), (''silly'', 6)]"

text \<open>
  The test a transport applies to a record,
  \<open>!level || this.levels[level] >= this.levels[info[LEVEL]]\<close> with \<open>level\<close> the
  level of the logger: the record is written when its level is at most as verbose as the
  logger's; a logger whose level is the empty string writes every record, one whose
  level is no npm level writes none.
\<close>

definition level_enabled :: "Logger \<Rightarrow> npm_level \<Rightarrow> bool" where
  "level_enabled lg lvl \<longleftrightarrow>
     logger_level lg = [] \<or>
     (case npm_levels (logger_level lg) of
        None \<Rightarrow> False
      | Some configured \<Rightarrow>
          (case npm_levels (level_name lvl) of None \<Rightarrow> False | Some n \<Rightarrow> n \<le> configured))"

definition stream_write :: "stream \<Rightarrow> string \<Rightarrow> world \<Rightarrow> world" where
  "stream_write s chunk w =
     (case s of
        Stdout \<Rightarrow> w\<lparr>stdout := stdout w @ [chunk]\<rparr>
      | Stderr \<Rightarrow> w\<lparr>stderr := stderr w @ [chunk]\<rparr>)"

text \<open>
  \<open>logger.log(level, message, meta)\<close>: the record goes to every transport, and each
  transport that lets it pass writes the formatted line to its stream.
\<close>

definition logger_log :: "Logger \<Rightarrow> npm_level \<Rightarrow> string \<Rightarrow> js_object \<Rightarrow> world \<Rightarrow> world" where
  "logger_log lg lvl message meta w =
     (if level_enabled lg lvl
      then fold (\<lambda>s. stream_write s
                  (logger_format lg
                     \<lparr>info_level = level_name lvl, info_message = message, info_meta = meta\<rparr>))
             (logger_transports lg) w
      else w)"

text \<open>The three methods the server calls.\<close>

definition logger_info :: "Logger \<Rightarrow> string \<Rightarrow> js_object \<Rightarrow> world \<Rightarrow> world" where
  "logger_info lg = logger_log lg Level_info"

definition logger_error :: "Logger \<Rightarrow> string \<Rightarrow> js_object \<Rightarrow> world \<Rightarrow> world" where
  "logger_error lg = logger_log lg Level_error"

definition logger_debug :: "Logger \<Rightarrow> string \<Rightarrow> js_object \<Rightarrow> world \<Rightarrow> world" where
  "logger_debug lg = logger_log lg Level_debug"

section \<open>Tool results and the pieces every handler shares\<close>

record content_item =
  item_type :: string
  item_text :: string

text \<open>\<open>isError\<close> is \<open>None\<close> when the returned object has no such property.\<close>

record CallToolResult =
  content :: "content_item list"
  isError :: "bool option"

text \<open>\<open>error instanceof Error ? error.message : 'Unknown error'\<close>\<close>

definition errorMessage :: "js_thrown \<Rightarrow> string" where
  "errorMessage error =
     (case error of ErrorInstance message \<Rightarrow> message | NonError v \<Rightarrow> ''Unknown error'')"

text \<open>
  Property access on an object, \<open>v?.length\<close>, and \<open>a || b\<close>, as the handlers use
  them to count results for the log.
\<close>

definition get_prop :: "js_object \<Rightarrow> string \<Rightarrow> js_value" where
  "get_prop obj k = (case map_of obj k of None \<Rightarrow> JUndefined | Some v \<Rightarrow> v)"

fun optional_length :: "js_value \<Rightarrow> js_value" where
  "optional_length JUndefined = JUndefined"
| "optional_length JNull = JUndefined"
| "optional_length (JArray xs) = JNumber (real (length xs))"
| "optional_length (JString s) = JNumber (real (length s))"
| "optional_length (JObject props) = get_prop props ''length''"
| "optional_length (JBool b) = JUndefined"
| "optional_length (JNumber n) = JUndefined"

fun falsy :: "js_value \<Rightarrow> bool" where
  "falsy JUndefined = True"
| "falsy JNull = True"
| "falsy (JBool b) = (\<not> b)"
| "falsy (JNumber n) = (n = 0)"
| "falsy (JString s) = (s = [])"
| "falsy (JArray xs) = False"
| "falsy (JObject props) = False"

definition js_or :: "js_value \<Rightarrow> js_value \<Rightarrow> js_value" where
  "js_or a b = (if falsy a then b else a)"

section \<open>query_metrics (tools/metrics.ts)\<close>

record query_metrics_args =
  metrics_query :: string
  metrics_from :: real
  metrics_to :: real

text \<open>
  The body of the \<open>try\<close> block. \<open>Number_toString\<close> is the parameter
  of \<open>JSON_stringify\<close>.
\<close>

definition query_metrics_try ::
  "Logger \<Rightarrow> MetricsApi \<Rightarrow> (real \<Rightarrow> string) \<Rightarrow> query_metrics_args \<Rightarrow> CallToolResult js_async" where
  "query_metrics_try lg metricsApi Number_toString args w0 =
     (let w1 = logger_info lg ''Querying metrics''
                 [(''query'', JString (metrics_query args)),
                  (''from'', JNumber (metrics_from args)),
                  (''to'', JNumber (metrics_to args))] w0;
          (settled, w2) = await_call QueryMetricsCall metricsApi
                 \<lparr>qm_from = metrics_from args, qm_to = metrics_to args,
                  qm_query = metrics_query args\<rparr> w1
      in case settled of
           Inl error \<Rightarrow> (Inl error, w2)
         | Inr response \<Rightarrow>
             (let w3 = logger_info lg ''Metrics query successful''
                         [(''query'', JString (metrics_query args)),
                          (''seriesCount'',
                             js_or (optional_length (get_prop response ''series'')) (JNumber 0))] w2
              in (Inr \<lparr>content = [\<lparr>item_type = ''text'',
                                    item_text = JSON_stringify Number_toString (JObject response)\<rparr>],
                       isError = None\<rparr>, w3)))"

text \<open>The \<open>catch\<close> block.\<close>

definition query_metrics_catch ::
  "Logger \<Rightarrow> query_metrics_args \<Rightarrow> js_thrown \<Rightarrow> CallToolResult js_async" where
  "query_metrics_catch lg args error w =
     (let w' = logger_error lg ''Metrics query failed''
                 [(''query'', JString (metrics_query args)),
                  (''error'', JString (errorMessage error))] w
      in (Inr \<lparr>content = [\<lparr>item_type = ''text'',
                            item_text = ''Error querying metrics: '' @ errorMessage error\<rparr>],
               isError = Some True\<rparr>, w'))"

definition query_metrics_handler ::
  "Logger \<Rightarrow> MetricsApi \<Rightarrow> (real \<Rightarrow> string) \<Rightarrow> query_metrics_args \<Rightarrow> CallToolResult js_async" where
  "query_metrics_handler lg metricsApi Number_toString args =
     try_catch (query_metrics_try lg metricsApi Number_toString args) (query_metrics_catch lg args)"

section \<open>search_logs (tools/logs.ts)\<close>

text \<open>
  The arguments of \<open>search_logs\<close> and \<open>search_spans\<close> as the client sends them
  (\<open>limit\<close> may be left out) and as the handler receives them from the schema.
\<close>

record search_input =
  input_query :: string
  input_from :: string
  input_to :: string
  input_limit :: "real option"

record search_args =
  args_query :: string
  args_from :: string
  args_to :: string
  args_limit :: real

text \<open>
  The schema of \<open>search_logs\<close>: three strings, and
  \<open>limit: z.number().optional().default(100)\<close>.
\<close>

definition search_logs_schema :: "search_input \<Rightarrow> search_args" where
  "search_logs_schema input =
     \<lparr>args_query = input_query input,
      args_from = input_from input,
      args_to = input_to input,
      args_limit = (case input_limit input of None \<Rightarrow> 100 | Some limit \<Rightarrow> limit)\<rparr>"

text \<open>\<open>const params: v2.LogsApiListLogsRequest = { body: { ... } }\<close>\<close>

definition search_logs_params :: "search_args \<Rightarrow> LogsApiListLogsRequest" where
  "search_logs_params args =
     \<lparr>logs_body =
        \<lparr>sr_filter = \<lparr>filter_query = args_query args, filter_from = args_from args,
                      filter_to = args_to args\<rparr>,
         sr_page = \<lparr>page_limit = args_limit args\<rparr>,
         sr_sort = ''timestamp''\<rparr>\<rparr>"

definition search_logs_try ::
  "Logger \<Rightarrow> LogsApi \<Rightarrow> (real \<Rightarrow> string) \<Rightarrow> search_args \<Rightarrow> CallToolResult js_async" where
  "search_logs_try lg logsApi Number_toString args w0 =
     (let w1 = logger_info lg ''Searching logs''
                 [(''query'', JString (args_query args)),
                  (''from'', JString (args_from args)),
                  (''to'', JString (args_to args)),
                  (''limit'', JNumber (args_limit args))] w0;
          (settled, w2) = await_call ListLogsCall logsApi (search_logs_params args) w1
      in case settled of
           Inl error \<Rightarrow> (Inl error, w2)
         | Inr response \<Rightarrow>
             (let w3 = logger_info lg ''Log search successful''
                         [(''query'', JString (args_query args)),
                          (''resultCount'',
                             js_or (optional_length (get_prop response ''data'')) (JNumber 0))] w2
              in (Inr \<lparr>content = [\<lparr>item_type = ''text'',
                                    item_text = JSON_stringify Number_toString (JObject response)\<rparr>],
                       isError = None\<rparr>, w3)))"

definition search_logs_catch ::
  "Logger \<Rightarrow> search_args \<Rightarrow> js_thrown \<Rightarrow> CallToolResult js_async" where
  "search_logs_catch lg args error w =
     (let w' = logger_error lg ''Log search failed''
                 [(''query'', JString (args_query args)),
                  (''error'', JString (errorMessage error))] w
      in (Inr \<lparr>content = [\<lparr>item_type = ''text'',
                            item_text = ''Error searching logs: '' @ errorMessage error\<rparr>],
               isError = Some True\<rparr>, w'))"

definition search_logs_handler ::
  "Logger \<Rightarrow> LogsApi \<Rightarrow> (real \<Rightarrow> string) \<Rightarrow> search_args \<Rightarrow> CallToolResult js_async" where
  "search_logs_handler lg logsApi Number_toString args =
     try_catch (search_logs_try lg logsApi Number_toString args) (search_logs_catch lg args)"

text \<open>
  The tool as the server runs it: the arguments of the call go through the schema, and
  the handler gets what the schema returns.
\<close>

definition search_logs_tool ::
  "Logger \<Rightarrow> LogsApi \<Rightarrow> (real \<Rightarrow> string) \<Rightarrow> search_input \<Rightarrow> CallToolResult js_async" where
  "search_logs_tool lg logsApi Number_toString input =
     search_logs_handler lg logsApi Number_toString (search_logs_schema input)"

section \<open>search_spans (tools/traces.ts)\<close>

text \<open>
  The schema of \<open>search_spans\<close>, of the same shape as that of \<open>search_logs\<close>.
\<close>

definition search_spans_schema :: "search_input \<Rightarrow> search_args" where
  "search_spans_schema input =
     \<lparr>args_query = input_query input,
      args_from = input_from input,
      args_to = input_to input,
      args_limit = (case input_limit input of None \<Rightarrow> 100 | Some limit \<Rightarrow> limit)\<rparr>"

text \<open>\<open>const params: v2.SpansApiListSpansRequest = { body: { data: { ... } } }\<close>\<close>

definition search_spans_params :: "search_args \<Rightarrow> SpansApiListSpansRequest" where
  "search_spans_params args =
     \<lparr>spans_body =
        \<lparr>body_data =
           \<lparr>data_attributes =
              \<lparr>sr_filter = \<lparr>filter_query = args_query args, filter_from = args_from args,
                            filter_to = args_to args\<rparr>,
               sr_page = \<lparr>page_limit = args_limit args\<rparr>,
               sr_sort = ''timestamp''\<rparr>,
            data_type = ''search_request''\<rparr>\<rparr>\<rparr>"

definition search_spans_try ::
  "Logger \<Rightarrow> SpansApi \<Rightarrow> (real \<Rightarrow> string) \<Rightarrow> search_args \<Rightarrow> CallToolResult js_async" where
  "search_spans_try lg spansApi Number_toString args w0 =
     (let w1 = logger_info lg ''Searching spans''
                 [(''query'', JString (args_query args)),
                  (''from'', JString (args_from args)),
                  (''to'', JString (args_to args)),
                  (''limit'', JNumber (args_limit args))] w0;
          (settled, w2) = await_call ListSpansCall spansApi (search_spans_params args) w1
      in case settled of
           Inl error \<Rightarrow> (Inl error, w2)
         | Inr response \<Rightarrow>
             (let w3 = logger_info lg ''Span search successful''
                         [(''query'', JString (args_query args)),
                          (''resultCount'',
                             js_or (optional_length (get_prop response ''data'')) (JNumber 0))] w2
              in (Inr \<lparr>content = [\<lparr>item_type = ''text'',
                                    item_text = JSON_stringify Number_toString (JObject response)\<rparr>],
                       isError = None\<rparr>, w3)))"

definition search_spans_catch ::
  "Logger \<Rightarrow> search_args \<Rightarrow> js_thrown \<Rightarrow> CallToolResult js_async" where
  "search_spans_catch lg args error w =
     (let w' = logger_error lg ''Span search failed''
                 [(''query'', JString (args_query args)),
                  (''error'', JString (errorMessage error))] w
      in (Inr \<lparr>content = [\<lparr>item_type = ''text'',
                            item_text = ''Error searching spans: '' @ errorMessage error\<rparr>],
               isError = Some True\<rparr>, w'))"

definition search_spans_handler ::
  "Logger \<Rightarrow> SpansApi \<Rightarrow> (real \<Rightarrow> string) \<Rightarrow> search_args \<Rightarrow> CallToolResult js_async" where
  "search_spans_handler lg spansApi Number_toString args =
     try_catch (search_spans_try lg spansApi Number_toString args) (search_spans_catch lg args)"

definition search_spans_tool ::
  "Logger \<Rightarrow> SpansApi \<Rightarrow> (real \<Rightarrow> string) \<Rightarrow> search_input \<Rightarrow> CallToolResult js_async" where
  "search_spans_tool lg spansApi Number_toString input =
     search_spans_handler lg spansApi Number_toString (search_spans_schema input)"

section \<open>get_monitor and list_monitors (tools/monitors.ts)\<close>

record get_monitor_args =
  monitorId :: real

definition get_monitor_try ::
  "Logger \<Rightarrow> MonitorsApi \<Rightarrow> (real \<Rightarrow> string) \<Rightarrow> get_monitor_args \<Rightarrow> CallToolResult js_async" where
  "get_monitor_try lg monitorsApi Number_toString args w0 =
     (let w1 = logger_info lg ''Getting monitor'' [(''monitorId'', JNumber (monitorId args))] w0;
          (settled, w2) = await_call GetMonitorCall (getMonitor monitorsApi)
                 \<lparr>gm_monitorId = monitorId args\<rparr> w1
      in case settled of
           Inl error \<Rightarrow> (Inl error, w2)
         | Inr response \<Rightarrow>
             (let w3 = logger_info lg ''Monitor retrieved successfully''
                         [(''monitorId'', JNumber (monitorId args))] w2
              in (Inr \<lparr>content = [\<lparr>item_type = ''text'',
                                    item_text = JSON_stringify Number_toString (JObject response)\<rparr>],
                       isError = None\<rparr>, w3)))"

definition get_monitor_catch ::
  "Logger \<Rightarrow> get_monitor_args \<Rightarrow> js_thrown \<Rightarrow> CallToolResult js_async" where
  "get_monitor_catch lg args error w =
     (let w' = logger_error lg ''Failed to get monitor''
                 [(''monitorId'', JNumber (monitorId args)),
                  (''error'', JString (errorMessage error))] w
      in (Inr \<lparr>content = [\<lparr>item_type = ''text'',
                            item_text = ''Error getting monitor: '' @ errorMessage error\<rparr>],
               isError = Some True\<rparr>, w'))"

definition get_monitor_handler ::
  "Logger \<Rightarrow> MonitorsApi \<Rightarrow> (real \<Rightarrow> string) \<Rightarrow> get_monitor_args \<Rightarrow> CallToolResult js_async" where
  "get_monitor_handler lg monitorsApi Number_toString args =
     try_catch (get_monitor_try lg monitorsApi Number_toString args) (get_monitor_catch lg args)"

text \<open>Both arguments of \<open>list_monitors\<close> are optional.\<close>

record list_monitors_args =
  args_tags :: "string list option"
  args_name :: "string option"

text \<open>
  \<open>params.tags\<close> is set when \<open>tags\<close> is given and not empty, \<open>params.name\<close>
  when \<open>name\<close> is given and not the empty string.
\<close>

definition list_monitors_params :: "list_monitors_args \<Rightarrow> MonitorsApiListMonitorsRequest" where
  "list_monitors_params args =
     \<lparr>lm_tags = (case args_tags args of
                   None \<Rightarrow> None
                 | Some ts \<Rightarrow> if length ts > 0 then Some (join '','' ts) else None),
      lm_name = (case args_name args of
                   None \<Rightarrow> None
                 | Some n \<Rightarrow> if n \<noteq> [] then Some n else None)\<rparr>"

definition list_monitors_try ::
  "Logger \<Rightarrow> MonitorsApi \<Rightarrow> (real \<Rightarrow> string) \<Rightarrow> list_monitors_args \<Rightarrow> CallToolResult js_async" where
  "list_monitors_try lg monitorsApi Number_toString args w0 =
     (let w1 = logger_info lg ''Listing monitors''
                 [(''tags'', case args_tags args of None \<Rightarrow> JUndefined | Some ts \<Rightarrow> JArray (map JString ts)),
                  (''name'', case args_name args of None \<Rightarrow> JUndefined | Some n \<Rightarrow> JString n)] w0;
          (settled, w2) = await_call ListMonitorsCall (listMonitors monitorsApi)
                 (list_monitors_params args) w1
      in case settled of
           Inl error \<Rightarrow> (Inl error, w2)
         | Inr response \<Rightarrow>
             (let w3 = logger_info lg ''Monitors listed successfully''
                         [(''count'', JNumber (real (length response)))] w2
              in (Inr \<lparr>content = [\<lparr>item_type = ''text'',
                                    item_text = JSON_stringify Number_toString (JArray (map JObject response))\<rparr>],
                       isError = None\<rparr>, w3)))"

definition list_monitors_catch ::
  "Logger \<Rightarrow> js_thrown \<Rightarrow> CallToolResult js_async" where
  "list_monitors_catch lg error w =
     (let w' = logger_error lg ''Failed to list monitors''
                 [(''error'', JString (errorMessage error))] w
      in (Inr \<lparr>content = [\<lparr>item_type = ''text'',
                            item_text = ''Error listing monitors: '' @ errorMessage error\<rparr>],
               isError = Some True\<rparr>, w'))"

definition list_monitors_handler ::
  "Logger \<Rightarrow> MonitorsApi \<Rightarrow> (real \<Rightarrow> string) \<Rightarrow> list_monitors_args \<Rightarrow> CallToolResult js_async" where
  "list_monitors_handler lg monitorsApi Number_toString args =
     try_catch (list_monitors_try lg monitorsApi Number_toString args) (list_monitors_catch lg)"

section \<open>Tool registration (tools.ts)\<close>

text \<open>
  What \<open>server.tool(name, description, schema, handler)\<close> leaves in the server: the
  name, the description and which handler, closed over which API object. The schemas and
  the handlers themselves are the definitions above. The server is the list of its
  registrations, in the order of the calls.
\<close>

datatype tool_handler =
    QueryMetricsHandler MetricsApi
  | SearchLogsHandler LogsApi
  | GetMonitorHandler MonitorsApi
  | ListMonitorsHandler MonitorsApi
  | SearchSpansHandler SpansApi

record tool_registration =
  tool_name :: string
  tool_description :: string
  tool_handler :: tool_handler

record McpServer =
  registered_tools :: "tool_registration list"

text \<open>
  \<open>McpServer.tool\<close> of the protocol SDK refuses a name the server has already: it
  throws \<open>new Error(`Tool ${name} is already registered`)\<close> and leaves the server as
  it was. Otherwise the registration is added.
\<close>

definition server_tool ::
  "string \<Rightarrow> string \<Rightarrow> tool_handler \<Rightarrow> McpServer \<Rightarrow> (js_thrown + unit) \<times> McpServer" where
  "server_tool nm description handler server =
     (if nm \<in> set (map tool_name (registered_tools server))
      then (Inl (ErrorInstance (''Tool '' @ nm @ '' is already registered'')), server)
      else (Inr (), server\<lparr>registered_tools := registered_tools server @
              [\<lparr>tool_name = nm, tool_description = description, tool_handler = handler\<rparr>]\<rparr>))"

text \<open>
  One statement after another: when the first throws, the second does not run, and what
  the first did to the state stays done.
\<close>

definition and_then ::
  "('s \<Rightarrow> (js_thrown + unit) \<times> 's) \<Rightarrow> ('s \<Rightarrow> (js_thrown + unit) \<times> 's) \<Rightarrow> 's \<Rightarrow> (js_thrown + unit) \<times> 's" where
  "and_then first second s =
     (case first s of
        (Inl error, s') \<Rightarrow> (Inl error, s')
      | (Inr returned, s') \<Rightarrow> second s')"

definition configureMetricsTools :: "McpServer \<Rightarrow> MetricsApi \<Rightarrow> (js_thrown + unit) \<times> McpServer" where
  "configureMetricsTools server metricsApi =
     server_tool ''query_metrics''
       ''Query Datadog metric timeseries data for a given time range''
       (QueryMetricsHandler metricsApi) server"

definition configureLogsTools :: "McpServer \<Rightarrow> LogsApi \<Rightarrow> (js_thrown + unit) \<times> McpServer" where
  "configureLogsTools server logsApi =
     server_tool ''search_logs''
       ''Search Datadog logs with a query and time range''
       (SearchLogsHandler logsApi) server"

definition configureMonitorsTools :: "McpServer \<Rightarrow> MonitorsApi \<Rightarrow> (js_thrown + unit) \<times> McpServer" where
  "configureMonitorsTools server monitorsApi =
     and_then
       (server_tool ''get_monitor''
          ''Get details of a specific Datadog monitor by ID''
          (GetMonitorHandler monitorsApi))
       (server_tool ''list_monitors''
          ''List all Datadog monitors with optional filtering''
          (ListMonitorsHandler monitorsApi))
       server"

definition configureTracesTools :: "McpServer \<Rightarrow> SpansApi \<Rightarrow> (js_thrown + unit) \<times> McpServer" where
  "configureTracesTools server spansApi =
     server_tool ''search_spans''
       ''Search APM spans/traces with a query and time range''
       (SearchSpansHandler spansApi) server"

text \<open>
  The local function \<open>configureIfDomainEnabled\<close> of \<open>registerTools\<close>, on the pair
  of the server and the process state. The line is logged before \<open>configureFn\<close> runs,
  so it is written also when \<open>configureFn\<close> throws.
\<close>

definition configureIfDomainEnabled ::
  "Logger \<Rightarrow> Domain list \<Rightarrow> Domain \<Rightarrow> (McpServer \<Rightarrow> (js_thrown + unit) \<times> McpServer) \<Rightarrow>
   McpServer \<times> world \<Rightarrow> (js_thrown + unit) \<times> McpServer \<times> world" where
  "configureIfDomainEnabled lg enabledDomains domain configureFn sw =
     (if domain \<in> set enabledDomains
      then (let w' = logger_debug lg (''Configuring '' @ domain @ '' tools'') [] (snd sw);
                (outcome, server') = configureFn (fst sw)
            in (outcome, server', w'))
      else (Inr (), fst sw,
            logger_debug lg (''Skipping '' @ domain @ '' tools (domain not enabled)'') [] (snd sw)))"

text \<open>
  \<open>registerTools\<close> has no \<open>try\<close>: what \<open>server.tool\<close> throws ends it, and
  the domains after the one that threw are not configured.
\<close>

definition registerTools ::
  "Logger \<Rightarrow> McpServer \<Rightarrow> Domain list \<Rightarrow> DatadogAPIs \<Rightarrow> world \<Rightarrow> (js_thrown + unit) \<times> McpServer \<times> world" where
  "registerTools lg server enabledDomains apis w0 =
     (let w1 = logger_info lg ''Registering tools for enabled domains''
                 [(''enabledDomains'', JString (join '', '' enabledDomains))] w0
      in and_then
           (configureIfDomainEnabled lg enabledDomains ''metrics''
              (\<lambda>s. configureMetricsTools s (v1_metrics apis)))
        (and_then
           (configureIfDomainEnabled lg enabledDomains ''logs''
              (\<lambda>s. configureLogsTools s (v2_logs apis)))
        (and_then
           (configureIfDomainEnabled lg enabledDomains ''monitors''
              (\<lambda>s. configureMonitorsTools s (v1_monitors apis)))
        (and_then
           (configureIfDomainEnabled lg enabledDomains ''traces''
              (\<lambda>s. configureTracesTools s (v2_spans apis)))
           (\<lambda>sw. (Inr (), fst sw, logger_info lg ''Tool registration complete'' [] (snd sw))))))
        (server, w1))"


section \<open>RPC Engine: correlation of requests and responses (specification 4.2)\<close>

text \<open>
  Modelled from the spec: the RPC Engine that the server and its clients run on is the
  protocol SDK, which is not among the sources; only its callers are. The messages of
  section 3 of the specification, with the payloads as strings.
\<close>

datatype message =
    Request nat string string
  | Response nat string
  | Notification string string

text \<open>
  Modelled from the spec: how a call ends for its caller: with the response that
  carried its id, with \<open>Timeout\<close>, or with \<open>ConnectionError\<close> when the Connection
  closes.
\<close>

datatype outcome = Delivered message | TimedOut | ConnectionClosed

text \<open>
  Modelled from the spec: the Engine's state on one Connection. \<open>next_id\<close> is the next
  fresh correlation id, \<open>waiting\<close> maps the id of every in-flight request to the call
  suspended on it, \<open>written\<close> are the messages written to the Transport,
  \<open>resolved\<close> lists, in order, which call was resumed for which id with which outcome,
  and \<open>discarded\<close> the responses that were logged and dropped. Calls are told apart
  by a token of type \<open>'c\<close>.
\<close>

record 'c engine =
  next_id :: nat
  waiting :: "(nat \<times> 'c) list"
  written :: "message list"
  resolved :: "('c \<times> nat \<times> outcome) list"
  discarded :: "message list"
  closed :: bool

text \<open>Modelled from the spec: the Engine on a new Connection.\<close>

definition new_engine :: "'c engine" where
  "new_engine = \<lparr>next_id = 0, waiting = [], written = [], resolved = [], discarded = [],
                  closed = False\<rparr>"

text \<open>
  Modelled from the spec: what can happen on a Connection, in any interleaving: a call
  is issued, a message arrives from the remote side, the timeout of an in-flight call
  elapses, the Connection closes.
\<close>

datatype 'c event =
    Issue 'c string string
  | Arrive message
  | Expire nat
  | Close

text \<open>
  Modelled from the spec: one step of the Engine. A call allocates a fresh id, writes
  the Request and waits. A Response whose id is in flight resumes the call waiting on
  that id and ends the wait; a Response for an unknown or already resolved id is
  discarded. An elapsed timeout resumes its call with \<open>Timeout\<close> and leaves the
  Connection open. Closing resumes every waiting call with \<open>ConnectionError\<close>; a call
  issued on a closed Connection ends with \<open>ConnectionError\<close> at once, under the id
  it would have had.
\<close>

fun engine_step :: "'c event \<Rightarrow> 'c engine \<Rightarrow> 'c engine" where
  "engine_step (Issue caller method params) e =
     (if closed e
      then e\<lparr>next_id := Suc (next_id e),
             resolved := resolved e @ [(caller, next_id e, ConnectionClosed)]\<rparr>
      else e\<lparr>next_id := Suc (next_id e),
             waiting := waiting e @ [(next_id e, caller)],
             written := written e @ [Request (next_id e) method params]\<rparr>)"
| "engine_step (Arrive (Response rid payload)) e =
     (case map_of (waiting e) rid of
        Some caller \<Rightarrow>
          e\<lparr>waiting := filter (\<lambda>p. fst p \<noteq> rid) (waiting e),
            resolved := resolved e @ [(caller, rid, Delivered (Response rid payload))]\<rparr>
      | None \<Rightarrow> e\<lparr>discarded := discarded e @ [Response rid payload]\<rparr>)"
| "engine_step (Arrive (Request rid method params)) e = e"
| "engine_step (Arrive (Notification method params)) e = e"
| "engine_step (Expire rid) e =
     (case map_of (waiting e) rid of
        Some caller \<Rightarrow>
          e\<lparr>waiting := filter (\<lambda>p. fst p \<noteq> rid) (waiting e),
            resolved := resolved e @ [(caller, rid, TimedOut)]\<rparr>
      | None \<Rightarrow> e)"
| "engine_step Close e =
     e\<lparr>waiting := [],
       resolved := resolved e @ map (\<lambda>(rid, caller). (caller, rid, ConnectionClosed)) (waiting e),
       closed := True\<rparr>"

text \<open>Modelled from the spec: the Engine after a sequence of events.\<close>

definition engine_run :: "'c event list \<Rightarrow> 'c engine \<Rightarrow> 'c engine" where
  "engine_run evs e = fold engine_step evs e"

text \<open>
  Modelled from the spec: the calls issued in a sequence of events, in order. On a new
  Connection the ids are allocated from 0 on, so the call at position \<open>k\<close> is the one
  that issued the request with id \<open>k\<close>.
\<close>

fun issuers :: "'c event list \<Rightarrow> 'c list" where
  "issuers [] = []"
| "issuers (Issue caller method params # evs) = caller # issuers evs"
| "issuers (ev # evs) = issuers evs"

text \<open>
  Modelled from the spec: what holds of the Engine's state after any events, relative
  to the calls issued so far (the invariant of the proofs): ids are allocated in
  order; no id waits twice; an id resolves at most once and does not wait afterwards;
  a waiting or resolved id belongs to the call that issued it; a delivered message is a
  Response with that id.
\<close>

definition engine_invariant :: "'c list \<Rightarrow> 'c engine \<Rightarrow> bool" where
  "engine_invariant callers e \<longleftrightarrow>
     next_id e = length callers
     \<and> distinct (map fst (waiting e))
     \<and> (\<forall>rid caller. (rid, caller) \<in> set (waiting e) \<longrightarrow>
           rid < length callers \<and> callers ! rid = caller)
     \<and> distinct (map (fst \<circ> snd) (resolved e))
     \<and> (\<forall>caller rid out. (caller, rid, out) \<in> set (resolved e) \<longrightarrow>
           rid < length callers \<and> callers ! rid = caller \<and> rid \<notin> fst ` set (waiting e))
     \<and> (\<forall>caller rid m. (caller, rid, Delivered m) \<in> set (resolved e) \<longrightarrow>
           (\<exists>payload. m = Response rid payload))"

section \<open>Capability negotiation (specification 4.3)\<close>

text \<open>
  Modelled from the spec: the error kinds of section 7 that a call can end with.
\<close>

datatype rpc_error =
    NotNegotiated
  | CapabilityNotSupported
  | Timeout
  | ConnectionError
  | RemoteError string

text \<open>
  Modelled from the spec: a Connection as the negotiator sees it: the capability set
  the remote side declared, absent until negotiation has completed, and the requests
  sent so far as pairs of method and parameters.
\<close>

record connection =
  remote_capabilities :: "string list option"
  sent :: "(string \<times> string) list"

text \<open>Modelled from the spec: a fresh Connection, on which nothing was exchanged.\<close>

definition fresh_connection :: connection where
  "fresh_connection = \<lparr>remote_capabilities = None, sent = []\<rparr>"

text \<open>
  Modelled from the spec: \<open>negotiate\<close> sends the local capabilities and expects the
  remote declaration; the answer of the remote side is the parameter \<open>remote\<close>. Only
  a successful exchange completes negotiation, and the capability set is immutable
  afterwards.
\<close>

definition negotiate ::
  "(string list \<Rightarrow> rpc_error + string list) \<Rightarrow> string list \<Rightarrow> connection \<Rightarrow>
     (rpc_error + string list) \<times> connection" where
  "negotiate remote localCapabilities conn =
     (case remote_capabilities conn of
        Some caps \<Rightarrow> (Inr caps, conn)
      | None \<Rightarrow>
          (case remote localCapabilities of
             Inl err \<Rightarrow>
               (Inl err, conn\<lparr>sent := sent conn @ [(''negotiate'', join '','' localCapabilities)]\<rparr>)
           | Inr remoteCapabilities \<Rightarrow>
               (Inr remoteCapabilities,
                conn\<lparr>remote_capabilities := Some remoteCapabilities,
                     sent := sent conn @ [(''negotiate'', join '','' localCapabilities)]\<rparr>)))"

text \<open>
  Modelled from the spec: any other call. Before negotiation has completed it is
  rejected with \<open>NotNegotiated\<close>; afterwards a method whose category the remote side
  did not declare fails with \<open>CapabilityNotSupported\<close>; in both cases nothing is sent.
  Otherwise the request is sent and the call ends as the remote side answers.
\<close>

definition rpc_call ::
  "(string \<Rightarrow> string \<Rightarrow> rpc_error + string) \<Rightarrow> string \<Rightarrow> string \<Rightarrow> string \<Rightarrow> connection \<Rightarrow>
     (rpc_error + string) \<times> connection" where
  "rpc_call remote category method params conn =
     (case remote_capabilities conn of
        None \<Rightarrow> (Inl NotNegotiated, conn)
      | Some caps \<Rightarrow>
          if category \<in> set caps
          then (remote method params, conn\<lparr>sent := sent conn @ [(method, params)]\<rparr>)
          else (Inl CapabilityNotSupported, conn))"

text \<open>
  Modelled from the spec: what a client does on a Connection: it negotiates with its
  local capabilities, or calls a method of some category with parameters.
\<close>

datatype operation = Negotiate "string list" | Call string string string

text \<open>
  Modelled from the spec: one operation on a Connection: its result and the Connection
  afterwards. A negotiation returns the remote capabilities, joined by commas.
\<close>

fun perform_one ::
  "(string list \<Rightarrow> rpc_error + string list) \<Rightarrow> (string \<Rightarrow> string \<Rightarrow> rpc_error + string) \<Rightarrow>
     operation \<Rightarrow> connection \<Rightarrow> (rpc_error + string) \<times> connection" where
  "perform_one peer remote (Negotiate localCapabilities) conn =
     (case negotiate peer localCapabilities conn of
        (Inl err, conn') \<Rightarrow> (Inl err, conn')
      | (Inr caps, conn') \<Rightarrow> (Inr (join '','' caps), conn'))"
| "perform_one peer remote (Call category method params) conn =
     rpc_call remote category method params conn"

text \<open>
  Modelled from the spec: a sequence of operations on a Connection: their results in
  order and the Connection afterwards.
\<close>

fun perform ::
  "(string list \<Rightarrow> rpc_error + string list) \<Rightarrow> (string \<Rightarrow> string \<Rightarrow> rpc_error + string) \<Rightarrow>
     operation list \<Rightarrow> connection \<Rightarrow> (rpc_error + string) list \<times> connection" where
  "perform peer remote [] conn = ([], conn)"
| "perform peer remote (operation # ops) conn =
     (case perform_one peer remote operation conn of
        (r, conn') \<Rightarrow>
          (case perform peer remote ops conn' of
             (rs, conn'') \<Rightarrow> (r # rs, conn'')))"

section \<open>State Store (specification 4.5)\<close>

text \<open>
  Modelled from the spec: the State Store of a session, kept by the agent framework
  that is not among the sources: an insertion-ordered mapping from output key to value.
\<close>

datatype store_error = DuplicateKey string | MissingKey string

type_synonym state_store = "(string \<times> string) list"

text \<open>
  Modelled from the spec: \<open>set(key, value)\<close> fails with \<open>DuplicateKey\<close> if the key
  is already set; the result is paired with the store afterwards.
\<close>

definition store_set :: "string \<Rightarrow> string \<Rightarrow> state_store \<Rightarrow> (store_error + unit) \<times> state_store" where
  "store_set key v store =
     (if key \<in> set (map fst store)
      then (Inl (DuplicateKey key), store)
      else (Inr (), store @ [(key, v)]))"

text \<open>Modelled from the spec: \<open>get(key)\<close> fails with \<open>MissingKey\<close> if absent.\<close>

definition store_get :: "string \<Rightarrow> state_store \<Rightarrow> store_error + string" where
  "store_get key store =
     (case map_of store key of None \<Rightarrow> Inl (MissingKey key) | Some v \<Rightarrow> Inr v)"

text \<open>
  Modelled from the spec: the \<open>set\<close> calls of one session, in order, on its store; a
  call that fails leaves the store as it was.
\<close>

fun store_sets :: "(string \<times> string) list \<Rightarrow> state_store \<Rightarrow> state_store" where
  "store_sets [] store = store"
| "store_sets ((key, v) # calls) store = store_sets calls (snd (store_set key v store))"

text \<open>
  Modelled from the spec: \<open>render(template)\<close> replaces every \<open>{key}\<close> by
  \<open>get(key)\<close> and fails as a whole with \<open>MissingKey\<close> if a key is absent. The
  second argument is the key read so far after an opening brace, if one is open; a
  brace that is never closed is ordinary text.
\<close>

fun render_scan :: "state_store \<Rightarrow> string option \<Rightarrow> string \<Rightarrow> store_error + string" where
  "render_scan store None [] = Inr []"
| "render_scan store (Some key) [] = Inr (CHR ''{'' # key)"
| "render_scan store None (c # cs) =
     (if c = CHR ''{'' then render_scan store (Some []) cs
      else (case render_scan store None cs of Inl err \<Rightarrow> Inl err | Inr text \<Rightarrow> Inr (c # text)))"
| "render_scan store (Some key) (c # cs) =
     (if c = CHR ''}''
      then (case store_get key store of
              Inl err \<Rightarrow> Inl err
            | Inr v \<Rightarrow>
                (case render_scan store None cs of
                   Inl err \<Rightarrow> Inl err
                 | Inr text \<Rightarrow> Inr (v @ text)))
      else render_scan store (Some (key @ [c])) cs)"

text \<open>Modelled from the spec: \<open>render\<close> starts outside any brace.\<close>

definition render :: "string \<Rightarrow> state_store \<Rightarrow> store_error + string" where
  "render template store = render_scan store None template"

section \<open>Pipeline Executor (specification 4.6)\<close>

text \<open>
  Modelled from the spec: a Stage of section 3 (the pipeline is run by the agent
  framework, which is not among the sources).
\<close>

record stage =
  stage_identifier :: string
  stage_tools :: "string list"
  stage_output_key :: string
  stage_template :: string

text \<open>
  Modelled from the spec: why a stage failed: its template did not render, its body
  failed, or its output could not be set.
\<close>

datatype cause = RenderFailed store_error | BodyFailed string | SetFailed store_error

text \<open>Modelled from the spec: the state machine of a session.\<close>

datatype status = Pending | Running nat | Completed | Failed nat cause

text \<open>
  Modelled from the spec: the Session State: the store, the status, and the statuses
  the session has left behind, oldest first.
\<close>

record session =
  session_store :: state_store
  session_status :: status
  session_history :: "status list"

text \<open>
  Modelled from the spec: a transition of the state machine: the status left is added
  to the history.
\<close>

definition transition :: "status \<Rightarrow> session \<Rightarrow> session" where
  "transition st s = s\<lparr>session_status := st, session_history := session_history s @ [session_status s]\<rparr>"

text \<open>
  Modelled from the spec: one stage on the current store: render the template, run the
  body on the rendered instructions, set the output under the declared key. The body
  is external to the core and a parameter: it fails with a cause or returns the output.
\<close>

definition exec_stage ::
  "(stage \<Rightarrow> string \<Rightarrow> string + string) \<Rightarrow> stage \<Rightarrow> state_store \<Rightarrow> cause + state_store" where
  "exec_stage body st store =
     (case render (stage_template st) store of
        Inl err \<Rightarrow> Inl (RenderFailed err)
      | Inr instructions \<Rightarrow>
          (case body st instructions of
             Inl why \<Rightarrow> Inl (BodyFailed why)
           | Inr output \<Rightarrow>
               (case store_set (stage_output_key st) output store of
                  (Inl err, store') \<Rightarrow> Inl (SetFailed err)
                | (Inr u, store') \<Rightarrow> Inr store')))"

text \<open>
  Modelled from the spec: the stages from index \<open>i\<close> on, in order: a stage that
  succeeds moves the session to \<open>Running (i + 1)\<close>, one that fails to
  \<open>Failed i cause\<close>, where the run stops; the end of the list gives \<open>Completed\<close>.
\<close>

fun run_from ::
  "(stage \<Rightarrow> string \<Rightarrow> string + string) \<Rightarrow> nat \<Rightarrow> stage list \<Rightarrow> session \<Rightarrow> session" where
  "run_from body i [] s = transition Completed s"
| "run_from body i (st # rest) s =
     (case exec_stage body st (session_store s) of
        Inl why \<Rightarrow> transition (Failed i why) s
      | Inr store' \<Rightarrow>
          run_from body (Suc i) rest (transition (Running (Suc i)) (s\<lparr>session_store := store'\<rparr>)))"

text \<open>
  Modelled from the spec: a session starts \<open>Pending\<close> with an empty store and moves
  to \<open>Running 0\<close>.
\<close>

definition run_pipeline :: "(stage \<Rightarrow> string \<Rightarrow> string + string) \<Rightarrow> stage list \<Rightarrow> session" where
  "run_pipeline body stages =
     run_from body 0 stages
       (transition (Running 0)
          \<lparr>session_store = [], session_status = Pending, session_history = []\<rparr>)"

section \<open>Domain parsing\<close>

lemma parseDomains_loop_valid:
  "set domains \<subseteq> set ALL_DOMAINS \<Longrightarrow> parseDomains_loop domains acc = Inr (acc @ domains)"
  by (induction domains arbitrary: acc) auto

lemma parseDomains_loop_invalid:
  "set pre \<subseteq> set ALL_DOMAINS \<Longrightarrow> d \<notin> set ALL_DOMAINS \<Longrightarrow>
   parseDomains_loop (pre @ d # rest) acc =
     Inl (ErrorInstance (''Invalid domain: '' @ d @ ''. Valid domains: '' @ join '', '' ALL_DOMAINS))"
  by (induction pre arbitrary: acc) auto

text \<open>
  C9. \<open>parseDomains\<close> returns a non-empty list of known domains unchanged, returns all
  four domains for the empty list, and throws at the first element outside the four
  domains, whatever follows it, an error whose message names that element.
\<close>

theorem parseDomains_cases:
  "(domains \<noteq> [] \<and> set domains \<subseteq> set ALL_DOMAINS \<longrightarrow> parseDomains domains = Inr domains)
   \<and> parseDomains [] = Inr [''metrics'', ''logs'', ''monitors'', ''traces'']
   \<and> (set pre \<subseteq> set ALL_DOMAINS \<and> d \<notin> set ALL_DOMAINS \<longrightarrow>
        (\<exists>msg. parseDomains (pre @ d # rest) = Inl (ErrorInstance msg)
           \<and> msg = ''Invalid domain: '' @ d @ ''. Valid domains: metrics, logs, monitors, traces''
           \<and> sublist d msg))"
proof (intro conjI impI)
  assume "domains \<noteq> [] \<and> set domains \<subseteq> set ALL_DOMAINS"
  then show "parseDomains domains = Inr domains"
    using parseDomains_loop_valid [of domains "[]"] by (simp add: parseDomains_def)
next
  show "parseDomains [] = Inr [''metrics'', ''logs'', ''monitors'', ''traces'']"
    by (simp add: parseDomains_def ALL_DOMAINS_def)
next
  assume a: "set pre \<subseteq> set ALL_DOMAINS \<and> d \<notin> set ALL_DOMAINS"
  let ?msg = "''Invalid domain: '' @ d @ ''. Valid domains: metrics, logs, monitors, traces''"
  have j: "join '', '' ALL_DOMAINS = ''metrics, logs, monitors, traces''"
    by (simp add: ALL_DOMAINS_def)
  have "parseDomains (pre @ d # rest) = Inl (ErrorInstance ?msg)"
    using a parseDomains_loop_invalid [of pre d rest "[]"] by (simp add: parseDomains_def j)
  moreover have "sublist d ?msg"
    by (rule sublist_appendI [of d "''Invalid domain: ''" "''. Valid domains: metrics, logs, monitors, traces''"])
  ultimately show "\<exists>msg. parseDomains (pre @ d # rest) = Inl (ErrorInstance msg)
      \<and> msg = ?msg \<and> sublist d msg"
    by blast
qed

theorem parseDomains_cases_witness:
  "parseDomains [''logs'', ''metrics''] = Inr [''logs'', ''metrics'']
   \<and> parseDomains [] = Inr [''metrics'', ''logs'', ''monitors'', ''traces'']
   \<and> parseDomains [''logs'', ''cpu'', ''metrics''] =
       Inl (ErrorInstance ''Invalid domain: cpu. Valid domains: metrics, logs, monitors, traces'')
   \<and> sublist ''cpu'' ''Invalid domain: cpu. Valid domains: metrics, logs, monitors, traces''"
  using parseDomains_cases [of "[''logs'', ''metrics'']" "[''logs'']" "''cpu''" "[''metrics'']"]
  by (simp add: ALL_DOMAINS_def)

section \<open>Logging and the streams\<close>

lemma fold_stream_write_api_calls:
  "api_calls (fold (\<lambda>s. stream_write s chunk) ts w) = api_calls w"
  by (induction ts arbitrary: w) (auto simp: stream_write_def split: stream.splits)

lemma logger_log_api_calls: "api_calls (logger_log lg lvl message meta w) = api_calls w"
  by (simp add: logger_log_def fold_stream_write_api_calls)

lemma logger_log_stdout:
  "logger_transports lg = [Stderr] \<Longrightarrow> stdout (logger_log lg lvl message meta w) = stdout w"
  by (simp add: logger_log_def stream_write_def)

lemma logger_log_stderr:
  "logger_transports lg = [Stderr] \<Longrightarrow>
   stderr (logger_log lg lvl message meta w) =
     stderr w @ (if level_enabled lg lvl
                 then [logger_format lg
                         \<lparr>info_level = level_name lvl, info_message = message, info_meta = meta\<rparr>]
                 else [])"
  by (simp add: logger_log_def stream_write_def)

lemmas handler_defs =
  try_catch_def await_call_def Let_def logger_info_def logger_error_def logger_debug_def
  query_metrics_handler_def query_metrics_try_def query_metrics_catch_def
  search_logs_handler_def search_logs_try_def search_logs_catch_def
  search_spans_handler_def search_spans_try_def search_spans_catch_def
  get_monitor_handler_def get_monitor_try_def get_monitor_catch_def
  list_monitors_handler_def list_monitors_try_def list_monitors_catch_def

lemma handlers_stdout:
  assumes "logger_transports lg = [Stderr]"
  shows "stdout (snd (query_metrics_handler lg metricsApi js a1 w)) = stdout w"
    and "stdout (snd (search_logs_handler lg logsApi js a2 w)) = stdout w"
    and "stdout (snd (get_monitor_handler lg monitorsApi js a3 w)) = stdout w"
    and "stdout (snd (list_monitors_handler lg monitorsApi js a4 w)) = stdout w"
    and "stdout (snd (search_spans_handler lg spansApi js a5 w)) = stdout w"
  using assms by (simp_all add: handler_defs logger_log_stdout split: sum.splits)

text \<open>
  What each handler writes to standard error: the record of the call, then the record
  of the success or of the failure, each if the level of the logger lets it pass.
\<close>

lemma handlers_stderr:
  fixes lg :: Logger
  defines "line \<equiv> \<lambda>lvl message meta.
    if level_enabled lg lvl
    then [logger_format lg \<lparr>info_level = level_name lvl, info_message = message, info_meta = meta\<rparr>]
    else []"
  assumes "logger_transports lg = [Stderr]"
  shows "stderr (snd (query_metrics_handler lg metricsApi js a1 w)) =
      stderr w
      @ line Level_info ''Querying metrics''
          [(''query'', JString (metrics_query a1)), (''from'', JNumber (metrics_from a1)),
           (''to'', JNumber (metrics_to a1))]
      @ (case metricsApi \<lparr>qm_from = metrics_from a1, qm_to = metrics_to a1, qm_query = metrics_query a1\<rparr> of
           Inr response \<Rightarrow>
             line Level_info ''Metrics query successful''
               [(''query'', JString (metrics_query a1)),
                (''seriesCount'', js_or (optional_length (get_prop response ''series'')) (JNumber 0))]
         | Inl error \<Rightarrow>
             line Level_error ''Metrics query failed''
               [(''query'', JString (metrics_query a1)), (''error'', JString (errorMessage error))])"
    and "stderr (snd (search_logs_handler lg logsApi js a2 w)) =
      stderr w
      @ line Level_info ''Searching logs''
          [(''query'', JString (args_query a2)), (''from'', JString (args_from a2)),
           (''to'', JString (args_to a2)), (''limit'', JNumber (args_limit a2))]
      @ (case logsApi (search_logs_params a2) of
           Inr response \<Rightarrow>
             line Level_info ''Log search successful''
               [(''query'', JString (args_query a2)),
                (''resultCount'', js_or (optional_length (get_prop response ''data'')) (JNumber 0))]
         | Inl error \<Rightarrow>
             line Level_error ''Log search failed''
               [(''query'', JString (args_query a2)), (''error'', JString (errorMessage error))])"
    and "stderr (snd (get_monitor_handler lg monitorsApi js a3 w)) =
      stderr w
      @ line Level_info ''Getting monitor'' [(''monitorId'', JNumber (monitorId a3))]
      @ (case getMonitor monitorsApi \<lparr>gm_monitorId = monitorId a3\<rparr> of
           Inr response \<Rightarrow>
             line Level_info ''Monitor retrieved successfully'' [(''monitorId'', JNumber (monitorId a3))]
         | Inl error \<Rightarrow>
             line Level_error ''Failed to get monitor''
               [(''monitorId'', JNumber (monitorId a3)), (''error'', JString (errorMessage error))])"
    and "stderr (snd (list_monitors_handler lg monitorsApi js a4 w)) =
      stderr w
      @ line Level_info ''Listing monitors''
          [(''tags'', case args_tags a4 of None \<Rightarrow> JUndefined | Some ts \<Rightarrow> JArray (map JString ts)),
           (''name'', case args_name a4 of None \<Rightarrow> JUndefined | Some n \<Rightarrow> JString n)]
      @ (case listMonitors monitorsApi (list_monitors_params a4) of
           Inr response \<Rightarrow>
             line Level_info ''Monitors listed successfully''
               [(''count'', JNumber (real (length response)))]
         | Inl error \<Rightarrow>
             line Level_error ''Failed to list monitors'' [(''error'', JString (errorMessage error))])"
    and "stderr (snd (search_spans_handler lg spansApi js a5 w)) =
      stderr w
      @ line Level_info ''Searching spans''
          [(''query'', JString (args_query a5)), (''from'', JString (args_from a5)),
           (''to'', JString (args_to a5)), (''limit'', JNumber (args_limit a5))]
      @ (case spansApi (search_spans_params a5) of
           Inr response \<Rightarrow>
             line Level_info ''Span search successful''
               [(''query'', JString (args_query a5)),
                (''resultCount'', js_or (optional_length (get_prop response ''data'')) (JNumber 0))]
         | Inl error \<Rightarrow>
             line Level_error ''Span search failed''
               [(''query'', JString (args_query a5)), (''error'', JString (errorMessage error))])"
  unfolding line_def using assms
  by (simp_all add: handler_defs logger_log_def stream_write_def split: sum.splits)

text \<open>\<open>registerTools\<close>: the state of the process after each of its steps.\<close>

lemma and_then_Inr:
  "fst (and_then f g x) = Inr () \<Longrightarrow> fst (f x) = Inr () \<and> and_then f g x = g (snd (f x))"
  by (auto simp: and_then_def split: prod.splits sum.splits)

lemma and_then_stdout:
  assumes "\<And>x. stdout (snd (snd (f x))) = stdout (snd x)"
    and "\<And>x. stdout (snd (snd (g x))) = stdout (snd x)"
  shows "stdout (snd (snd (and_then f g x))) = stdout (snd x)"
proof -
  obtain outcome x' where fx: "f x = (outcome, x')"
    by (metis surj_pair)
  show ?thesis
  proof (cases outcome)
    case (Inl error)
    then show ?thesis
      using fx assms(1) [of x] by (simp add: and_then_def)
  next
    case (Inr returned)
    then show ?thesis
      using fx assms(1) [of x] assms(2) [of x'] by (simp add: and_then_def)
  qed
qed

lemma configureIfDomainEnabled_world:
  "snd (snd (configureIfDomainEnabled lg enabledDomains domain configureFn sw)) =
     logger_debug lg
       (if domain \<in> set enabledDomains then ''Configuring '' @ domain @ '' tools''
        else ''Skipping '' @ domain @ '' tools (domain not enabled)'') [] (snd sw)"
  by (simp add: configureIfDomainEnabled_def Let_def split: prod.splits)

lemma registerTools_stdout:
  assumes "logger_transports lg = [Stderr]"
  shows "stdout (snd (snd (registerTools lg server enabledDomains apis w))) = stdout w"
proof -
  have step: "stdout (snd (snd (configureIfDomainEnabled lg enabledDomains domain configureFn x))) =
      stdout (snd x)" for domain configureFn x
    by (simp add: configureIfDomainEnabled_world logger_debug_def logger_log_stdout [OF assms])
  have last: "stdout (snd (snd (Inr () :: js_thrown + unit, fst x,
      logger_info lg ''Tool registration complete'' [] (snd x)))) = stdout (snd x)"
    for x :: "McpServer \<times> world"
    by (simp add: logger_info_def logger_log_stdout [OF assms])
  show ?thesis
    unfolding registerTools_def Let_def
    by (simp only: and_then_stdout [OF step and_then_stdout [OF step and_then_stdout
        [OF step and_then_stdout [OF step last]]]] snd_conv)
      (simp add: logger_info_def logger_log_stdout [OF assms])
qed

lemma registerTools_world:
  assumes "fst (registerTools lg server enabledDomains apis w) = Inr ()"
  shows "snd (snd (registerTools lg server enabledDomains apis w)) =
    logger_info lg ''Tool registration complete'' []
      (logger_debug lg
         (if ''traces'' \<in> set enabledDomains then ''Configuring traces tools''
          else ''Skipping traces tools (domain not enabled)'') []
      (logger_debug lg
         (if ''monitors'' \<in> set enabledDomains then ''Configuring monitors tools''
          else ''Skipping monitors tools (domain not enabled)'') []
      (logger_debug lg
         (if ''logs'' \<in> set enabledDomains then ''Configuring logs tools''
          else ''Skipping logs tools (domain not enabled)'') []
      (logger_debug lg
         (if ''metrics'' \<in> set enabledDomains then ''Configuring metrics tools''
          else ''Skipping metrics tools (domain not enabled)'') []
      (logger_info lg ''Registering tools for enabled domains''
         [(''enabledDomains'', JString (join '', '' enabledDomains))] w)))))"
proof -
  let ?f1 = "configureIfDomainEnabled lg enabledDomains ''metrics''
      (\<lambda>s. configureMetricsTools s (v1_metrics apis))"
  let ?f2 = "configureIfDomainEnabled lg enabledDomains ''logs''
      (\<lambda>s. configureLogsTools s (v2_logs apis))"
  let ?f3 = "configureIfDomainEnabled lg enabledDomains ''monitors''
      (\<lambda>s. configureMonitorsTools s (v1_monitors apis))"
  let ?f4 = "configureIfDomainEnabled lg enabledDomains ''traces''
      (\<lambda>s. configureTracesTools s (v2_spans apis))"
  let ?f5 = "\<lambda>sw :: McpServer \<times> world.
      (Inr () :: js_thrown + unit, fst sw, logger_info lg ''Tool registration complete'' [] (snd sw))"
  let ?x0 = "(server, logger_info lg ''Registering tools for enabled domains''
      [(''enabledDomains'', JString (join '', '' enabledDomains))] w)"
  let ?x1 = "snd (?f1 ?x0)"
  let ?x2 = "snd (?f2 ?x1)"
  let ?x3 = "snd (?f3 ?x2)"
  let ?x4 = "snd (?f4 ?x3)"
  have all: "registerTools lg server enabledDomains apis w =
      and_then ?f1 (and_then ?f2 (and_then ?f3 (and_then ?f4 ?f5))) ?x0"
    by (simp add: registerTools_def Let_def)
  have r1: "and_then ?f1 (and_then ?f2 (and_then ?f3 (and_then ?f4 ?f5))) ?x0 =
      and_then ?f2 (and_then ?f3 (and_then ?f4 ?f5)) ?x1"
    using and_then_Inr [of ?f1 "and_then ?f2 (and_then ?f3 (and_then ?f4 ?f5))" ?x0] assms
    unfolding all by simp
  have r2: "and_then ?f2 (and_then ?f3 (and_then ?f4 ?f5)) ?x1 =
      and_then ?f3 (and_then ?f4 ?f5) ?x2"
    using and_then_Inr [of ?f2 "and_then ?f3 (and_then ?f4 ?f5)" ?x1] assms
    unfolding all r1 by simp
  have r3: "and_then ?f3 (and_then ?f4 ?f5) ?x2 = and_then ?f4 ?f5 ?x3"
    using and_then_Inr [of ?f3 "and_then ?f4 ?f5" ?x2] assms
    unfolding all r1 r2 by simp
  have r4: "and_then ?f4 ?f5 ?x3 = ?f5 ?x4"
    using and_then_Inr [of ?f4 ?f5 ?x3] assms
    unfolding all r1 r2 r3 by simp
  have "snd (snd (registerTools lg server enabledDomains apis w)) =
      logger_info lg ''Tool registration complete'' [] (snd ?x4)"
    unfolding all r1 r2 r3 r4 by simp
  then show ?thesis
    by (simp only: configureIfDomainEnabled_world snd_conv) simp
qed

text \<open>
  C3. Whatever level the logger is set to (\<open>configured\<close>: the level read from
  \<open>LOG_LEVEL\<close> or set afterwards), logging never writes to standard output, and
  every record that passes the level test is appended to standard error, as the line
  the format makes of it (\<open>line\<close>); a record that does not pass is written
  nowhere. This holds for a record of any level, for the three methods the server calls,
  and for every logging call of every tool handler: a handler leaves standard output as
  it was and adds to standard error the line of the call and then the line of the
  success or of the failure, with their metadata. The registration of the tools leaves
  standard output as it was too, and when it returns it has added its six lines to
  standard error.
\<close>

theorem logger_writes_to_stderr_only:
  "(let lg = (logger fmt LOG_LEVEL)\<lparr>logger_level := configured\<rparr>;
        line = (\<lambda>lvl message meta.
                  if level_enabled lg lvl
                  then [fmt \<lparr>info_level = level_name lvl, info_message = message, info_meta = meta\<rparr>]
                  else [])
    in stdout (logger_log lg lvl message meta w) = stdout w
     \<and> stderr (logger_log lg lvl message meta w) = stderr w @ line lvl message meta
     \<and> stdout (logger_info lg message meta w) = stdout w
     \<and> stderr (logger_info lg message meta w) = stderr w @ line Level_info message meta
     \<and> stdout (logger_error lg message meta w) = stdout w
     \<and> stderr (logger_error lg message meta w) = stderr w @ line Level_error message meta
     \<and> stdout (logger_debug lg message meta w) = stdout w
     \<and> stderr (logger_debug lg message meta w) = stderr w @ line Level_debug message meta
     \<and> stdout (snd (query_metrics_handler lg metricsApi js a1 w)) = stdout w
     \<and> stderr (snd (query_metrics_handler lg metricsApi js a1 w)) =
         stderr w
         @ line Level_info ''Querying metrics''
             [(''query'', JString (metrics_query a1)), (''from'', JNumber (metrics_from a1)),
              (''to'', JNumber (metrics_to a1))]
         @ (case metricsApi \<lparr>qm_from = metrics_from a1, qm_to = metrics_to a1, qm_query = metrics_query a1\<rparr> of
              Inr response \<Rightarrow>
                line Level_info ''Metrics query successful''
                  [(''query'', JString (metrics_query a1)),
                   (''seriesCount'', js_or (optional_length (get_prop response ''series'')) (JNumber 0))]
            | Inl error \<Rightarrow>
                line Level_error ''Metrics query failed''
                  [(''query'', JString (metrics_query a1)), (''error'', JString (errorMessage error))])
     \<and> stdout (snd (search_logs_handler lg logsApi js a2 w)) = stdout w
     \<and> stderr (snd (search_logs_handler lg logsApi js a2 w)) =
         stderr w
         @ line Level_info ''Searching logs''
             [(''query'', JString (args_query a2)), (''from'', JString (args_from a2)),
              (''to'', JString (args_to a2)), (''limit'', JNumber (args_limit a2))]
         @ (case logsApi (search_logs_params a2) of
              Inr response \<Rightarrow>
                line Level_info ''Log search successful''
                  [(''query'', JString (args_query a2)),
                   (''resultCount'', js_or (optional_length (get_prop response ''data'')) (JNumber 0))]
            | Inl error \<Rightarrow>
                line Level_error ''Log search failed''
                  [(''query'', JString (args_query a2)), (''error'', JString (errorMessage error))])
     \<and> stdout (snd (get_monitor_handler lg monitorsApi js a3 w)) = stdout w
     \<and> stderr (snd (get_monitor_handler lg monitorsApi js a3 w)) =
         stderr w
         @ line Level_info ''Getting monitor'' [(''monitorId'', JNumber (monitorId a3))]
         @ (case getMonitor monitorsApi \<lparr>gm_monitorId = monitorId a3\<rparr> of
              Inr response \<Rightarrow>
                line Level_info ''Monitor retrieved successfully''
                  [(''monitorId'', JNumber (monitorId a3))]
            | Inl error \<Rightarrow>
                line Level_error ''Failed to get monitor''
                  [(''monitorId'', JNumber (monitorId a3)), (''error'', JString (errorMessage error))])
     \<and> stdout (snd (list_monitors_handler lg monitorsApi js a4 w)) = stdout w
     \<and> stderr (snd (list_monitors_handler lg monitorsApi js a4 w)) =
         stderr w
         @ line Level_info ''Listing monitors''
             [(''tags'', case args_tags a4 of None \<Rightarrow> JUndefined | Some ts \<Rightarrow> JArray (map JString ts)),
              (''name'', case args_name a4 of None \<Rightarrow> JUndefined | Some n \<Rightarrow> JString n)]
         @ (case listMonitors monitorsApi (list_monitors_params a4) of
              Inr response \<Rightarrow>
                line Level_info ''Monitors listed successfully''
                  [(''count'', JNumber (real (length response)))]
            | Inl error \<Rightarrow>
                line Level_error ''Failed to list monitors''
                  [(''error'', JString (errorMessage error))])
     \<and> stdout (snd (search_spans_handler lg spansApi js a5 w)) = stdout w
     \<and> stderr (snd (search_spans_handler lg spansApi js a5 w)) =
         stderr w
         @ line Level_info ''Searching spans''
             [(''query'', JString (args_query a5)), (''from'', JString (args_from a5)),
              (''to'', JString (args_to a5)), (''limit'', JNumber (args_limit a5))]
         @ (case spansApi (search_spans_params a5) of
              Inr response \<Rightarrow>
                line Level_info ''Span search successful''
                  [(''query'', JString (args_query a5)),
                   (''resultCount'', js_or (optional_length (get_prop response ''data'')) (JNumber 0))]
            | Inl error \<Rightarrow>
                line Level_error ''Span search failed''
                  [(''query'', JString (args_query a5)), (''error'', JString (errorMessage error))])
     \<and> stdout (snd (snd (registerTools lg server enabledDomains apis w))) = stdout w
     \<and> (fst (registerTools lg server enabledDomains apis w) = Inr () \<longrightarrow>
          stderr (snd (snd (registerTools lg server enabledDomains apis w))) =
            stderr w
            @ line Level_info ''Registering tools for enabled domains''
                [(''enabledDomains'', JString (join '', '' enabledDomains))]
            @ line Level_debug
                (if ''metrics'' \<in> set enabledDomains then ''Configuring metrics tools''
                 else ''Skipping metrics tools (domain not enabled)'') []
            @ line Level_debug
                (if ''logs'' \<in> set enabledDomains then ''Configuring logs tools''
                 else ''Skipping logs tools (domain not enabled)'') []
            @ line Level_debug
                (if ''monitors'' \<in> set enabledDomains then ''Configuring monitors tools''
                 else ''Skipping monitors tools (domain not enabled)'') []
            @ line Level_debug
                (if ''traces'' \<in> set enabledDomains then ''Configuring traces tools''
                 else ''Skipping traces tools (domain not enabled)'') []
            @ line Level_info ''Tool registration complete'' []))"
proof -
  let ?lg = "(logger fmt LOG_LEVEL)\<lparr>logger_level := configured\<rparr>"
  have t: "logger_transports ?lg = [Stderr]"
    and f: "logger_format ?lg = fmt"
    by (simp_all add: logger_def)
  note out = logger_log_stdout [OF t]
  note err = logger_log_stderr [OF t, unfolded f]
  have registered: "stderr (snd (snd (registerTools ?lg server enabledDomains apis w))) =
      stderr w
      @ (if level_enabled ?lg Level_info
         then [fmt \<lparr>info_level = level_name Level_info,
                    info_message = ''Registering tools for enabled domains'',
                    info_meta = [(''enabledDomains'', JString (join '', '' enabledDomains))]\<rparr>]
         else [])
      @ (if level_enabled ?lg Level_debug
         then [fmt \<lparr>info_level = level_name Level_debug,
                    info_message =
                      (if ''metrics'' \<in> set enabledDomains then ''Configuring metrics tools''
                       else ''Skipping metrics tools (domain not enabled)''),
                    info_meta = []\<rparr>]
         else [])
      @ (if level_enabled ?lg Level_debug
         then [fmt \<lparr>info_level = level_name Level_debug,
                    info_message =
                      (if ''logs'' \<in> set enabledDomains then ''Configuring logs tools''
                       else ''Skipping logs tools (domain not enabled)''),
                    info_meta = []\<rparr>]
         else [])
      @ (if level_enabled ?lg Level_debug
         then [fmt \<lparr>info_level = level_name Level_debug,
                    info_message =
                      (if ''monitors'' \<in> set enabledDomains then ''Configuring monitors tools''
                       else ''Skipping monitors tools (domain not enabled)''),
                    info_meta = []\<rparr>]
         else [])
      @ (if level_enabled ?lg Level_debug
         then [fmt \<lparr>info_level = level_name Level_debug,
                    info_message =
                      (if ''traces'' \<in> set enabledDomains then ''Configuring traces tools''
                       else ''Skipping traces tools (domain not enabled)''),
                    info_meta = []\<rparr>]
         else [])
      @ (if level_enabled ?lg Level_info
         then [fmt \<lparr>info_level = level_name Level_info,
                    info_message = ''Tool registration complete'', info_meta = []\<rparr>]
         else [])"
    if "fst (registerTools ?lg server enabledDomains apis w) = Inr ()"
    unfolding registerTools_world [OF that] logger_info_def logger_debug_def
    by (simp only: err append_assoc)
  show ?thesis
    unfolding Let_def
  proof (intro conjI impI)
  qed (simp_all only: out err handlers_stdout [OF t] handlers_stderr [OF t, unfolded f]
      registerTools_stdout [OF t] registered logger_info_def logger_error_def logger_debug_def)
qed

theorem logger_writes_to_stderr_only_witness:
  "stdout (logger_log (logger info_message None) Level_info ''Querying metrics'' []
      \<lparr>stdout = [''frame''], stderr = [], api_calls = []\<rparr>) = [''frame'']
   \<and> stderr (logger_log (logger info_message None) Level_info ''Querying metrics'' []
      \<lparr>stdout = [''frame''], stderr = [], api_calls = []\<rparr>) = [''Querying metrics'']
   \<and> stderr (logger_log (logger info_message None) Level_debug ''Configuring logs tools'' []
      \<lparr>stdout = [''frame''], stderr = [], api_calls = []\<rparr>) = []
   \<and> stderr (logger_debug (logger info_message (Some ''debug'')) ''Configuring logs tools'' []
      \<lparr>stdout = [''frame''], stderr = [], api_calls = []\<rparr>) = [''Configuring logs tools'']
   \<and> stdout (snd (query_metrics_handler (logger info_message None)
        (\<lambda>request. Inl (ErrorInstance ''Invalid metric query'')) (\<lambda>n. [])
        \<lparr>metrics_query = ''invalid:query'', metrics_from = 1704067200, metrics_to = 1704070800\<rparr>
        \<lparr>stdout = [''frame''], stderr = [], api_calls = []\<rparr>)) = [''frame'']
   \<and> stderr (snd (query_metrics_handler (logger info_message None)
        (\<lambda>request. Inl (ErrorInstance ''Invalid metric query'')) (\<lambda>n. [])
        \<lparr>metrics_query = ''invalid:query'', metrics_from = 1704067200, metrics_to = 1704070800\<rparr>
        \<lparr>stdout = [''frame''], stderr = [], api_calls = []\<rparr>)) =
       [''Querying metrics'', ''Metrics query failed'']
   \<and> stderr (snd (search_logs_handler (logger info_message None) (\<lambda>request. Inr []) (\<lambda>n. [])
        \<lparr>args_query = ''status:error'', args_from = ''now-15m'', args_to = ''now'', args_limit = 10\<rparr>
        \<lparr>stdout = [''frame''], stderr = [], api_calls = []\<rparr>)) =
       [''Searching logs'', ''Log search successful'']
   \<and> fst (registerTools (logger info_message (Some ''debug'')) \<lparr>registered_tools = []\<rparr>
        [''logs'', ''traces'']
        \<lparr>v1_metrics = (\<lambda>request. Inr []),
         v1_monitors = \<lparr>getMonitor = (\<lambda>request. Inr []), listMonitors = (\<lambda>request. Inr [])\<rparr>,
         v2_logs = (\<lambda>request. Inr []), v2_spans = (\<lambda>request. Inr [])\<rparr>
        \<lparr>stdout = [''frame''], stderr = [], api_calls = []\<rparr>) = Inr ()
   \<and> stderr (snd (snd (registerTools (logger info_message (Some ''debug'')) \<lparr>registered_tools = []\<rparr>
        [''logs'', ''traces'']
        \<lparr>v1_metrics = (\<lambda>request. Inr []),
         v1_monitors = \<lparr>getMonitor = (\<lambda>request. Inr []), listMonitors = (\<lambda>request. Inr [])\<rparr>,
         v2_logs = (\<lambda>request. Inr []), v2_spans = (\<lambda>request. Inr [])\<rparr>
        \<lparr>stdout = [''frame''], stderr = [], api_calls = []\<rparr>))) =
       [''Registering tools for enabled domains'',
        ''Skipping metrics tools (domain not enabled)'',
        ''Configuring logs tools'',
        ''Skipping monitors tools (domain not enabled)'',
        ''Configuring traces tools'',
        ''Tool registration complete'']
   \<and> stdout (snd (snd (registerTools (logger info_message (Some ''debug'')) \<lparr>registered_tools = []\<rparr>
        [''logs'', ''traces'']
        \<lparr>v1_metrics = (\<lambda>request. Inr []),
         v1_monitors = \<lparr>getMonitor = (\<lambda>request. Inr []), listMonitors = (\<lambda>request. Inr [])\<rparr>,
         v2_logs = (\<lambda>request. Inr []), v2_spans = (\<lambda>request. Inr [])\<rparr>
        \<lparr>stdout = [''frame''], stderr = [], api_calls = []\<rparr>))) = [''frame'']"
proof -
  have same: "(logger fmt LOG_LEVEL)\<lparr>logger_level := logger_level (logger fmt LOG_LEVEL)\<rparr> =
      logger fmt LOG_LEVEL" for fmt LOG_LEVEL
    by simp
  have quiet: "level_enabled (logger info_message None) Level_info"
      "level_enabled (logger info_message None) Level_error"
      "\<not> level_enabled (logger info_message None) Level_debug"
    and verbose: "level_enabled (logger info_message (Some ''debug'')) Level_info"
      "level_enabled (logger info_message (Some ''debug'')) Level_debug"
    by (simp_all add: level_enabled_def logger_def npm_levels_def)
  have returns: "fst (registerTools (logger info_message (Some ''debug'')) \<lparr>registered_tools = []\<rparr>
        [''logs'', ''traces'']
        \<lparr>v1_metrics = (\<lambda>request. Inr []),
         v1_monitors = \<lparr>getMonitor = (\<lambda>request. Inr []), listMonitors = (\<lambda>request. Inr [])\<rparr>,
         v2_logs = (\<lambda>request. Inr []), v2_spans = (\<lambda>request. Inr [])\<rparr>
        \<lparr>stdout = [''frame''], stderr = [], api_calls = []\<rparr>) = Inr ()"
    by (simp add: registerTools_def configureIfDomainEnabled_def and_then_def Let_def
        configureLogsTools_def configureTracesTools_def server_tool_def)
  show ?thesis
    using
      logger_writes_to_stderr_only [where fmt = info_message and LOG_LEVEL = "None"
        and configured = "logger_level (logger info_message (None))"
        and lvl = Level_info and message = "''Querying metrics''" and meta = "[]"
        and w = "\<lparr>stdout = [''frame''], stderr = [], api_calls = []\<rparr>"
        and metricsApi = "\<lambda>request. Inl (ErrorInstance ''Invalid metric query'')"
        and logsApi = "\<lambda>request. Inr []" and js = "\<lambda>n. []"
        and ?a1.0 = "\<lparr>metrics_query = ''invalid:query'', metrics_from = 1704067200, metrics_to = 1704070800\<rparr>"
        and ?a2.0 = "\<lparr>args_query = ''status:error'', args_from = ''now-15m'', args_to = ''now'', args_limit = 10\<rparr>"]
      logger_writes_to_stderr_only [where fmt = info_message and LOG_LEVEL = "None"
        and configured = "logger_level (logger info_message (None))"
        and lvl = Level_debug and message = "''Configuring logs tools''" and meta = "[]"
        and w = "\<lparr>stdout = [''frame''], stderr = [], api_calls = []\<rparr>"]
      logger_writes_to_stderr_only [where fmt = info_message and LOG_LEVEL = "Some ''debug''"
        and configured = "logger_level (logger info_message (Some ''debug''))"
        and lvl = Level_debug and message = "''Configuring logs tools''" and meta = "[]"
        and w = "\<lparr>stdout = [''frame''], stderr = [], api_calls = []\<rparr>"
        and server = "\<lparr>registered_tools = []\<rparr>" and enabledDomains = "[''logs'', ''traces'']"
        and apis = "\<lparr>v1_metrics = (\<lambda>request. Inr []),
         v1_monitors = \<lparr>getMonitor = (\<lambda>request. Inr []), listMonitors = (\<lambda>request. Inr [])\<rparr>,
         v2_logs = (\<lambda>request. Inr []), v2_spans = (\<lambda>request. Inr [])\<rparr>"]
    unfolding Let_def same
    using quiet verbose returns by simp
qed

section \<open>The tool handlers\<close>

text \<open>
  C1. When the Datadog API call of a tool handler rejects, the handler (each of
  \<open>query_metrics\<close>, \<open>search_logs\<close>, \<open>get_monitor\<close>, \<open>list_monitors\<close>,
  \<open>search_spans\<close>) returns normally: the result has \<open>isError\<close> true and one
  content element of type \<open>text\<close> whose text contains the message of the thrown
  \<open>Error\<close>, or \<open>Unknown error\<close> when what was thrown is no \<open>Error\<close>. Nothing
  is thrown on to the caller.
\<close>

theorem handlers_catch_rejection:
  "(let msg = (case error of ErrorInstance m \<Rightarrow> m | NonError v \<Rightarrow> ''Unknown error'') in
      ((metricsApi \<lparr>qm_from = metrics_from a1, qm_to = metrics_to a1, qm_query = metrics_query a1\<rparr> = Inl error) \<longrightarrow>
        (\<exists>text. fst (query_metrics_handler lg metricsApi js a1 w) =
             Inr \<lparr>content = [\<lparr>item_type = ''text'', item_text = text\<rparr>], isError = Some True\<rparr>
           \<and> text = ''Error querying metrics: '' @ msg \<and> sublist msg text))
      \<and> ((logsApi (search_logs_params a2) = Inl error) \<longrightarrow>
        (\<exists>text. fst (search_logs_handler lg logsApi js a2 w) =
             Inr \<lparr>content = [\<lparr>item_type = ''text'', item_text = text\<rparr>], isError = Some True\<rparr>
           \<and> text = ''Error searching logs: '' @ msg \<and> sublist msg text))
      \<and> ((getMonitor monitorsApi \<lparr>gm_monitorId = monitorId a3\<rparr> = Inl error) \<longrightarrow>
        (\<exists>text. fst (get_monitor_handler lg monitorsApi js a3 w) =
             Inr \<lparr>content = [\<lparr>item_type = ''text'', item_text = text\<rparr>], isError = Some True\<rparr>
           \<and> text = ''Error getting monitor: '' @ msg \<and> sublist msg text))
      \<and> ((listMonitors monitorsApi (list_monitors_params a4) = Inl error) \<longrightarrow>
        (\<exists>text. fst (list_monitors_handler lg monitorsApi js a4 w) =
             Inr \<lparr>content = [\<lparr>item_type = ''text'', item_text = text\<rparr>], isError = Some True\<rparr>
           \<and> text = ''Error listing monitors: '' @ msg \<and> sublist msg text))
      \<and> ((spansApi (search_spans_params a5) = Inl error) \<longrightarrow>
        (\<exists>text. fst (search_spans_handler lg spansApi js a5 w) =
             Inr \<lparr>content = [\<lparr>item_type = ''text'', item_text = text\<rparr>], isError = Some True\<rparr>
           \<and> text = ''Error searching spans: '' @ msg \<and> sublist msg text)))"
  unfolding Let_def
proof (intro conjI impI)
qed (simp_all add: handler_defs errorMessage_def sublist_Cons_right)

theorem handlers_catch_rejection_witness:
  "fst (query_metrics_handler (logger info_message None)
          (\<lambda>request. Inl (ErrorInstance ''Invalid metric query'')) (\<lambda>v. ''{}'')
          \<lparr>metrics_query = ''invalid:query'', metrics_from = 1704067200, metrics_to = 1704070800\<rparr>
          \<lparr>stdout = [], stderr = [], api_calls = []\<rparr>) =
     Inr \<lparr>content = [\<lparr>item_type = ''text'',
                        item_text = ''Error querying metrics: Invalid metric query''\<rparr>],
          isError = Some True\<rparr>
   \<and> fst (search_logs_handler (logger info_message None)
          (\<lambda>request. Inl (ErrorInstance ''Invalid metric query'')) (\<lambda>v. ''{}'')
          \<lparr>args_query = ''invalid::query'', args_from = ''now-15m'', args_to = ''now'', args_limit = 100\<rparr>
          \<lparr>stdout = [], stderr = [], api_calls = []\<rparr>) =
     Inr \<lparr>content = [\<lparr>item_type = ''text'',
                        item_text = ''Error searching logs: Invalid metric query''\<rparr>],
          isError = Some True\<rparr>
   \<and> fst (get_monitor_handler (logger info_message None)
          \<lparr>getMonitor = (\<lambda>request. Inl (ErrorInstance ''Invalid metric query'')),
           listMonitors = (\<lambda>request. Inl (ErrorInstance ''Invalid metric query''))\<rparr> (\<lambda>v. ''{}'')
          \<lparr>monitorId = 42\<rparr>
          \<lparr>stdout = [], stderr = [], api_calls = []\<rparr>) =
     Inr \<lparr>content = [\<lparr>item_type = ''text'',
                        item_text = ''Error getting monitor: Invalid metric query''\<rparr>],
          isError = Some True\<rparr>
   \<and> fst (list_monitors_handler (logger info_message None)
          \<lparr>getMonitor = (\<lambda>request. Inl (ErrorInstance ''Invalid metric query'')),
           listMonitors = (\<lambda>request. Inl (ErrorInstance ''Invalid metric query''))\<rparr> (\<lambda>v. ''{}'')
          \<lparr>args_tags = Some [''env:prod''], args_name = None\<rparr>
          \<lparr>stdout = [], stderr = [], api_calls = []\<rparr>) =
     Inr \<lparr>content = [\<lparr>item_type = ''text'',
                        item_text = ''Error listing monitors: Invalid metric query''\<rparr>],
          isError = Some True\<rparr>
   \<and> fst (search_spans_handler (logger info_message None)
          (\<lambda>request. Inl (ErrorInstance ''Invalid metric query'')) (\<lambda>v. ''{}'')
          \<lparr>args_query = ''invalid::query'', args_from = ''now-1h'', args_to = ''now'', args_limit = 100\<rparr>
          \<lparr>stdout = [], stderr = [], api_calls = []\<rparr>) =
     Inr \<lparr>content = [\<lparr>item_type = ''text'',
                        item_text = ''Error searching spans: Invalid metric query''\<rparr>],
          isError = Some True\<rparr>
   \<and> sublist ''Invalid metric query'' ''Error querying metrics: Invalid metric query''
   \<and> fst (query_metrics_handler (logger info_message None)
          (\<lambda>request. Inl (NonError (JString ''String error''))) (\<lambda>v. ''{}'')
          \<lparr>metrics_query = ''avg:system.cpu.user{*}'', metrics_from = 1704067200, metrics_to = 1704070800\<rparr>
          \<lparr>stdout = [], stderr = [], api_calls = []\<rparr>) =
     Inr \<lparr>content = [\<lparr>item_type = ''text'',
                        item_text = ''Error querying metrics: Unknown error''\<rparr>],
          isError = Some True\<rparr>"
  using
    handlers_catch_rejection [where error = "ErrorInstance ''Invalid metric query''"
      and lg = "logger info_message None" and js = "\<lambda>v. ''{}''"
      and w = "\<lparr>stdout = [], stderr = [], api_calls = []\<rparr>"
      and metricsApi = "\<lambda>request. Inl (ErrorInstance ''Invalid metric query'')"
      and logsApi = "\<lambda>request. Inl (ErrorInstance ''Invalid metric query'')"
      and spansApi = "\<lambda>request. Inl (ErrorInstance ''Invalid metric query'')"
      and monitorsApi = "\<lparr>getMonitor = (\<lambda>request. Inl (ErrorInstance ''Invalid metric query'')),
           listMonitors = (\<lambda>request. Inl (ErrorInstance ''Invalid metric query''))\<rparr>"
      and ?a1.0 = "\<lparr>metrics_query = ''invalid:query'', metrics_from = 1704067200, metrics_to = 1704070800\<rparr>"
      and ?a2.0 = "\<lparr>args_query = ''invalid::query'', args_from = ''now-15m'', args_to = ''now'', args_limit = 100\<rparr>"
      and ?a3.0 = "\<lparr>monitorId = 42\<rparr>"
      and ?a4.0 = "\<lparr>args_tags = Some [''env:prod''], args_name = None\<rparr>"
      and ?a5.0 = "\<lparr>args_query = ''invalid::query'', args_from = ''now-1h'', args_to = ''now'', args_limit = 100\<rparr>"]
    handlers_catch_rejection [where error = "NonError (JString ''String error'')"
      and lg = "logger info_message None" and js = "\<lambda>v. ''{}''"
      and w = "\<lparr>stdout = [], stderr = [], api_calls = []\<rparr>"
      and metricsApi = "\<lambda>request. Inl (NonError (JString ''String error''))"
      and ?a1.0 = "\<lparr>metrics_query = ''avg:system.cpu.user{*}'', metrics_from = 1704067200, metrics_to = 1704070800\<rparr>"]
  by (simp add: Let_def)

section \<open>JSON text read back\<close>

text \<open>
  \<open>JSON.parse\<close> reads back what \<open>JSON.stringify\<close> wrote of a value that
  satisfies \<open>json_data\<close>: first numbers, then strings, then values with their
  arrays and objects.
\<close>

subsection \<open>Numbers\<close>

declare decimal.simps [simp del]















subsection \<open>Strings\<close>





subsection \<open>Values\<close>



















section \<open>The text of a successful result\<close>




section \<open>The requests of the search tools\<close>

lemma handlers_api_calls:
  "api_calls (snd (search_logs_handler lg logsApi js args w)) = api_calls w @ [ListLogsCall (search_logs_params args)]"
  "api_calls (snd (search_spans_handler lg spansApi js args w)) = api_calls w @ [ListSpansCall (search_spans_params args)]"
  by (simp_all add: handler_defs logger_log_api_calls split: sum.splits)

text \<open>
  C8. \<open>search_logs\<close> and \<open>search_spans\<close> send one request. Its \<open>page.limit\<close>
  is 100 when the call leaves \<open>limit\<close> out and the given value otherwise, and its
  filter carries \<open>query\<close>, \<open>from\<close> and \<open>to\<close> unchanged.
\<close>

theorem search_tools_page_limit:
  "api_calls (snd (search_logs_tool lg logsApi js
       \<lparr>input_query = q, input_from = f, input_to = t, input_limit = None\<rparr> w)) =
     api_calls w @ [ListLogsCall \<lparr>logs_body =
       \<lparr>sr_filter = \<lparr>filter_query = q, filter_from = f, filter_to = t\<rparr>,
        sr_page = \<lparr>page_limit = 100\<rparr>, sr_sort = ''timestamp''\<rparr>\<rparr>]
   \<and> api_calls (snd (search_logs_tool lg logsApi js
       \<lparr>input_query = q, input_from = f, input_to = t, input_limit = Some limit\<rparr> w)) =
     api_calls w @ [ListLogsCall \<lparr>logs_body =
       \<lparr>sr_filter = \<lparr>filter_query = q, filter_from = f, filter_to = t\<rparr>,
        sr_page = \<lparr>page_limit = limit\<rparr>, sr_sort = ''timestamp''\<rparr>\<rparr>]
   \<and> api_calls (snd (search_spans_tool lg spansApi js
       \<lparr>input_query = q, input_from = f, input_to = t, input_limit = None\<rparr> w)) =
     api_calls w @ [ListSpansCall \<lparr>spans_body = \<lparr>body_data = \<lparr>data_attributes =
       \<lparr>sr_filter = \<lparr>filter_query = q, filter_from = f, filter_to = t\<rparr>,
        sr_page = \<lparr>page_limit = 100\<rparr>, sr_sort = ''timestamp''\<rparr>,
       data_type = ''search_request''\<rparr>\<rparr>\<rparr>]
   \<and> api_calls (snd (search_spans_tool lg spansApi js
       \<lparr>input_query = q, input_from = f, input_to = t, input_limit = Some limit\<rparr> w)) =
     api_calls w @ [ListSpansCall \<lparr>spans_body = \<lparr>body_data = \<lparr>data_attributes =
       \<lparr>sr_filter = \<lparr>filter_query = q, filter_from = f, filter_to = t\<rparr>,
        sr_page = \<lparr>page_limit = limit\<rparr>, sr_sort = ''timestamp''\<rparr>,
       data_type = ''search_request''\<rparr>\<rparr>\<rparr>]"
  by (simp add: search_logs_tool_def search_spans_tool_def handlers_api_calls
      search_logs_schema_def search_spans_schema_def search_logs_params_def search_spans_params_def)

theorem search_tools_page_limit_witness:
  "api_calls (snd (search_logs_tool (logger info_message None) (\<lambda>request. Inr []) (\<lambda>v. ''{}'')
       \<lparr>input_query = ''status:error'', input_from = ''now-15m'', input_to = ''now'',
        input_limit = None\<rparr>
       \<lparr>stdout = [], stderr = [], api_calls = []\<rparr>)) =
     [ListLogsCall \<lparr>logs_body =
       \<lparr>sr_filter = \<lparr>filter_query = ''status:error'', filter_from = ''now-15m'', filter_to = ''now''\<rparr>,
        sr_page = \<lparr>page_limit = 100\<rparr>, sr_sort = ''timestamp''\<rparr>\<rparr>]
   \<and> api_calls (snd (search_spans_tool (logger info_message None) (\<lambda>request. Inr []) (\<lambda>v. ''{}'')
       \<lparr>input_query = ''service:web'', input_from = ''now-1h'', input_to = ''now'',
        input_limit = Some 50\<rparr>
       \<lparr>stdout = [], stderr = [], api_calls = []\<rparr>)) =
     [ListSpansCall \<lparr>spans_body = \<lparr>body_data = \<lparr>data_attributes =
       \<lparr>sr_filter = \<lparr>filter_query = ''service:web'', filter_from = ''now-1h'', filter_to = ''now''\<rparr>,
        sr_page = \<lparr>page_limit = 50\<rparr>, sr_sort = ''timestamp''\<rparr>,
       data_type = ''search_request''\<rparr>\<rparr>\<rparr>]"
  using
    search_tools_page_limit [where lg = "logger info_message None" and logsApi = "\<lambda>request. Inr []"
      and js = "\<lambda>v. ''{}''" and q = "''status:error''" and f = "''now-15m''" and t = "''now''"
      and w = "\<lparr>stdout = [], stderr = [], api_calls = []\<rparr>"]
    search_tools_page_limit [where lg = "logger info_message None" and spansApi = "\<lambda>request. Inr []"
      and js = "\<lambda>v. ''{}''" and q = "''service:web''" and f = "''now-1h''" and t = "''now''"
      and limit = 50 and w = "\<lparr>stdout = [], stderr = [], api_calls = []\<rparr>"]
  by simp

section \<open>Registration by domain\<close>
















section \<open>The State Store is write-once\<close>

lemma store_set_keys:
  "map fst (snd (store_set key v store)) =
     (if key \<in> set (map fst store) then map fst store else map fst store @ [key])"
  by (simp add: store_set_def)

lemma store_sets_distinct:
  "distinct (map fst store) \<Longrightarrow> distinct (map fst (store_sets calls store))"
proof (induction calls arbitrary: store)
  case Nil
  then show ?case by simp
next
  case (Cons c calls)
  obtain key v where c: "c = (key, v)" by (cases c)
  have "distinct (map fst (snd (store_set key v store)))"
    using Cons.prems by (simp add: store_set_keys)
  then show ?case using Cons.IH c by simp
qed

lemma store_sets_map_of:
  "map_of (store_sets calls store) key =
     (case map_of store key of Some v \<Rightarrow> Some v | None \<Rightarrow> map_of calls key)"
proof (induction calls arbitrary: store)
  case Nil
  then show ?case by (simp split: option.splits)
next
  case (Cons c calls)
  obtain k v where c: "c = (k, v)" by (cases c)
  show ?case
  proof (cases "map_of store k")
    case None
    then have "k \<notin> set (map fst store)" by (simp add: map_of_eq_None_iff)
    then have "snd (store_set k v store) = store @ [(k, v)]" by (simp add: store_set_def)
    then show ?thesis
      unfolding c store_sets.simps Cons.IH using None
      by (auto simp: map_add_def split: option.splits)
  next
    case (Some x)
    then have "k \<in> set (map fst store)" by (metis map_of_eq_None_iff option.distinct(1) set_map)
    then have "snd (store_set k v store) = store" by (simp add: store_set_def)
    then show ?thesis
      unfolding c store_sets.simps Cons.IH using Some
      by (auto split: option.splits)
  qed
qed

lemma store_sets_keys:
  "set (map fst (store_sets calls store)) = set (map fst store) \<union> set (map fst calls)"
proof -
  have "dom (map_of (store_sets calls store)) = dom (map_of store) \<union> dom (map_of calls)"
    by (auto simp: store_sets_map_of split: option.splits)
  then show ?thesis by (simp add: dom_map_of_conv_image_fst)
qed

text \<open>
  C6. In the State Store of a session, \<open>set\<close> on a key that is already set fails
  with \<open>DuplicateKey\<close> and leaves the store, and so the binding of the key, as it
  was. Whatever \<open>set\<close> calls a session makes, every key is bound to the value of the
  first call for it and appears once in the store.
\<close>

theorem store_set_write_once:
  "(key \<in> set (map fst store) \<longrightarrow>
      store_set key v store = (Inl (DuplicateKey key), store)
      \<and> store_get key (snd (store_set key v store)) = store_get key store)
   \<and> (key \<in> set (map fst calls) \<longrightarrow>
        fst (store_set key v (store_sets calls [])) = Inl (DuplicateKey key))
   \<and> map_of (store_sets calls []) = map_of calls
   \<and> distinct (map fst (store_sets calls []))"
proof (intro conjI impI)
  assume "key \<in> set (map fst store)"
  then show "store_set key v store = (Inl (DuplicateKey key), store)"
    by (simp add: store_set_def)
  then show "store_get key (snd (store_set key v store)) = store_get key store"
    by simp
next
  assume "key \<in> set (map fst calls)"
  then have "key \<in> set (map fst (store_sets calls []))"
    unfolding store_sets_keys by simp
  then show "fst (store_set key v (store_sets calls [])) = Inl (DuplicateKey key)"
    by (simp add: store_set_def)
next
  show "map_of (store_sets calls []) = map_of calls"
    by (rule ext) (simp add: store_sets_map_of)
next
  show "distinct (map fst (store_sets calls []))"
    by (rule store_sets_distinct) simp
qed

theorem store_set_write_once_witness:
  "store_set ''decision'' ''IGNORE'' [(''decision'', ''TICKET'')] =
     (Inl (DuplicateKey ''decision''), [(''decision'', ''TICKET'')])
   \<and> store_get ''decision'' (snd (store_set ''decision'' ''IGNORE'' [(''decision'', ''TICKET'')])) =
       Inr ''TICKET''
   \<and> store_sets [(''decision'', ''TICKET''), (''decision'', ''IGNORE'')] [] =
       [(''decision'', ''TICKET'')]
   \<and> fst (store_set ''decision'' ''IGNORE''
        (store_sets [(''decision'', ''TICKET''), (''decision'', ''IGNORE'')] [])) =
       Inl (DuplicateKey ''decision'')"
  using store_set_write_once [of "''decision''" "[(''decision'', ''TICKET'')]" "''IGNORE''"
      "[(''decision'', ''TICKET''), (''decision'', ''IGNORE'')]"]
  by (simp add: store_set_def store_get_def)

section \<open>No call before negotiation\<close>

lemma rpc_call_not_negotiated:
  "remote_capabilities conn = None \<Longrightarrow>
   rpc_call remote category method params conn = (Inl NotNegotiated, conn)"
  by (simp add: rpc_call_def)

lemma perform_one_capabilities:
  "remote_capabilities (snd (perform_one peer remote operation conn)) =
     (case remote_capabilities conn of
        Some caps \<Rightarrow> Some caps
      | None \<Rightarrow>
          (case operation of
             Negotiate l \<Rightarrow> (case peer l of Inl err \<Rightarrow> None | Inr caps \<Rightarrow> Some caps)
           | Call category method params \<Rightarrow> None))"
  by (cases operation)
     (auto simp: negotiate_def rpc_call_def split: option.splits sum.splits prod.splits)

lemma perform_append:
  "perform peer remote (before @ after) conn =
     (fst (perform peer remote before conn)
        @ fst (perform peer remote after (snd (perform peer remote before conn))),
      snd (perform peer remote after (snd (perform peer remote before conn))))"
  by (induction before arbitrary: conn) (auto split: prod.splits)

lemma perform_not_negotiated:
  "remote_capabilities (snd (perform peer remote ops conn)) = None \<longleftrightarrow>
     remote_capabilities conn = None \<and> (\<forall>l. Negotiate l \<in> set ops \<longrightarrow> isl (peer l))"
proof (induction ops arbitrary: conn)
  case Nil
  then show ?case by simp
next
  case (Cons operation ops)
  have step: "snd (perform peer remote (operation # ops) conn) =
      snd (perform peer remote ops (snd (perform_one peer remote operation conn)))"
    by (simp split: prod.splits)
  show ?case
    unfolding step Cons.IH perform_one_capabilities
    by (cases operation) (auto split: option.splits sum.splits)
qed

text \<open>
  C5. On a Connection whose negotiation has not completed, a call other than the
  negotiation is rejected with \<open>NotNegotiated\<close> and the Connection is left as it was.
  A new Connection is in that state, and stays in it exactly as long as no negotiation
  has succeeded; so after any operations among which no negotiation succeeded, the next
  call is rejected with \<open>NotNegotiated\<close>.
\<close>

theorem calls_before_negotiation_rejected:
  "(remote_capabilities conn = None \<longrightarrow>
      rpc_call remote category method params conn = (Inl NotNegotiated, conn))
   \<and> remote_capabilities fresh_connection = None
   \<and> (remote_capabilities (snd (perform peer remote before fresh_connection)) = None
        \<longleftrightarrow> (\<forall>l. Negotiate l \<in> set before \<longrightarrow> isl (peer l)))
   \<and> ((\<forall>l. Negotiate l \<in> set before \<longrightarrow> isl (peer l)) \<longrightarrow>
        perform peer remote (before @ [Call category method params]) fresh_connection =
          (fst (perform peer remote before fresh_connection) @ [Inl NotNegotiated],
           snd (perform peer remote before fresh_connection)))"
proof (intro conjI impI)
  assume "remote_capabilities conn = None"
  then show "rpc_call remote category method params conn = (Inl NotNegotiated, conn)"
    by (rule rpc_call_not_negotiated)
next
  show fresh: "remote_capabilities fresh_connection = None"
    by (simp add: fresh_connection_def)
  show iff: "remote_capabilities (snd (perform peer remote before fresh_connection)) = None
        \<longleftrightarrow> (\<forall>l. Negotiate l \<in> set before \<longrightarrow> isl (peer l))"
    by (simp add: perform_not_negotiated fresh)
  assume "\<forall>l. Negotiate l \<in> set before \<longrightarrow> isl (peer l)"
  then have "remote_capabilities (snd (perform peer remote before fresh_connection)) = None"
    using iff by simp
  then show "perform peer remote (before @ [Call category method params]) fresh_connection =
          (fst (perform peer remote before fresh_connection) @ [Inl NotNegotiated],
           snd (perform peer remote before fresh_connection))"
    by (simp add: perform_append rpc_call_not_negotiated)
qed

theorem calls_before_negotiation_rejected_witness:
  "rpc_call (\<lambda>method params. Inr ''ok'') ''tools'' ''tools/call'' ''search_logs'' fresh_connection =
     (Inl NotNegotiated, fresh_connection)
   \<and> fst (perform (\<lambda>l. if l = [] then Inl ConnectionError else Inr [''tools''])
          (\<lambda>method params. Inr ''ok'')
          ([Negotiate [], Call ''tools'' ''tools/list'' ''{}''] @ [Call ''tools'' ''tools/call'' ''search_logs''])
          fresh_connection) =
     [Inl ConnectionError, Inl NotNegotiated, Inl NotNegotiated]
   \<and> fst (perform (\<lambda>l. if l = [] then Inl ConnectionError else Inr [''tools''])
          (\<lambda>method params. Inr ''ok'')
          [Call ''tools'' ''tools/list'' ''{}'', Negotiate [''roots''],
           Call ''tools'' ''tools/call'' ''search_logs'', Call ''prompts'' ''prompts/list'' ''{}'']
          fresh_connection) =
     [Inl NotNegotiated, Inr ''tools'', Inr ''ok'', Inl CapabilityNotSupported]"
proof -
  let ?peer = "\<lambda>l. if l = [] then Inl ConnectionError else Inr [''tools'']"
  let ?remote = "\<lambda>method params. Inr ''ok''"
  let ?before = "[Negotiate [], Call ''tools'' ''tools/list'' ''{}'']"
  have failed: "\<forall>l. Negotiate l \<in> set ?before \<longrightarrow> isl (?peer l)"
    by simp
  have "rpc_call ?remote ''tools'' ''tools/call'' ''search_logs'' fresh_connection =
        (Inl NotNegotiated, fresh_connection)
      \<and> perform ?peer ?remote (?before @ [Call ''tools'' ''tools/call'' ''search_logs'']) fresh_connection =
        (fst (perform ?peer ?remote ?before fresh_connection) @ [Inl NotNegotiated],
         snd (perform ?peer ?remote ?before fresh_connection))"
    using calls_before_negotiation_rejected [of fresh_connection ?remote "''tools''" "''tools/call''"
        "''search_logs''" ?peer ?before] failed
    by simp
  moreover have "fst (perform ?peer ?remote ?before fresh_connection) =
      [Inl ConnectionError, Inl NotNegotiated]"
    by (simp add: negotiate_def rpc_call_def fresh_connection_def)
  moreover have "fst (perform ?peer ?remote
          [Call ''tools'' ''tools/list'' ''{}'', Negotiate [''roots''],
           Call ''tools'' ''tools/call'' ''search_logs'', Call ''prompts'' ''prompts/list'' ''{}'']
          fresh_connection) =
     [Inl NotNegotiated, Inr ''tools'', Inr ''ok'', Inl CapabilityNotSupported]"
    by (simp add: negotiate_def rpc_call_def fresh_connection_def)
  ultimately show ?thesis by simp
qed

section \<open>A failing stage halts the pipeline\<close>

lemma exec_stage_Inr:
  assumes "exec_stage body st store = Inr store'"
  shows "map fst store' = map fst store @ [stage_output_key st]"
  using assms
  by (auto simp: exec_stage_def store_set_def split: sum.splits if_splits)

lemma run_from_completed_keys:
  "session_status (run_from body i stages s) = Completed \<Longrightarrow>
   map fst (session_store (run_from body i stages s)) =
     map fst (session_store s) @ map stage_output_key stages"
proof (induction stages arbitrary: i s)
  case Nil
  then show ?case by (simp add: transition_def)
next
  case (Cons st stages)
  show ?case
  proof (cases "exec_stage body st (session_store s)")
    case (Inl why)
    then show ?thesis using Cons.prems by (simp add: transition_def)
  next
    case (Inr store')
    then show ?thesis
      using Cons.prems Cons.IH [of "Suc i" "transition (Running (Suc i)) (s\<lparr>session_store := store'\<rparr>)"]
      by (simp add: exec_stage_Inr transition_def)
  qed
qed

lemma run_from_completed_history:
  "session_status (run_from body i stages s) = Completed \<Longrightarrow>
   session_history (run_from body i stages s) =
     session_history s @ session_status s # map Running [Suc i..<Suc (i + length stages)]"
proof (induction stages arbitrary: i s)
  case Nil
  then show ?case by (simp add: transition_def)
next
  case (Cons st stages)
  show ?case
  proof (cases "exec_stage body st (session_store s)")
    case (Inl why)
    then show ?thesis using Cons.prems by (simp add: transition_def)
  next
    case (Inr store')
    have upt: "[Suc i..<Suc (i + length (st # stages))] =
        Suc i # [Suc (Suc i)..<Suc (Suc i + length stages)]"
      by (simp add: upt_conv_Cons del: upt_Suc)
    show ?thesis
      unfolding upt
      using Inr Cons.prems Cons.IH [of "Suc i" "transition (Running (Suc i)) (s\<lparr>session_store := store'\<rparr>)"]
      by (simp add: transition_def del: upt_Suc)
  qed
qed

lemma run_from_failing_stage:
  "session_status (run_from body i before s) = Completed \<Longrightarrow>
   exec_stage body st (session_store (run_from body i before s)) = Inl why \<Longrightarrow>
   run_from body i (before @ st # rest) s =
     (run_from body i before s)\<lparr>session_status := Failed (i + length before) why\<rparr>"
proof (induction before arbitrary: i s)
  case Nil
  then show ?case by (simp add: transition_def)
next
  case (Cons x before)
  show ?case
  proof (cases "exec_stage body x (session_store s)")
    case (Inl why')
    then show ?thesis using Cons.prems by (simp add: transition_def)
  next
    case (Inr store')
    then show ?thesis
      using Cons.prems Cons.IH [of "Suc i" "transition (Running (Suc i)) (s\<lparr>session_store := store'\<rparr>)"]
      by simp
  qed
qed

text \<open>
  C7. If the stages before stage \<open>i\<close> complete and stage \<open>i\<close> fails, the session
  ends in \<open>Failed i cause\<close>; the store is the one stage \<open>i\<close> started with, its keys
  are exactly the output keys of the stages before \<open>i\<close>, and nothing is stored under
  the key of stage \<open>i\<close> unless an earlier stage declared the same key; the session was
  never \<open>Running j\<close> for a \<open>j\<close> greater than \<open>i\<close>.
\<close>

theorem failed_stage_halts_pipeline:
  assumes "i < length stages"
    and "session_status (run_pipeline body (take i stages)) = Completed"
    and "exec_stage body (stages ! i) (session_store (run_pipeline body (take i stages))) = Inl why"
  shows "session_status (run_pipeline body stages) = Failed i why
    \<and> session_store (run_pipeline body stages) = session_store (run_pipeline body (take i stages))
    \<and> map fst (session_store (run_pipeline body stages)) = map stage_output_key (take i stages)
    \<and> session_history (run_pipeline body stages) = Pending # map Running [0..<Suc i]
    \<and> (\<forall>j. Running j \<in> set (session_history (run_pipeline body stages)) \<longrightarrow> j \<le> i)
    \<and> (stage_output_key (stages ! i) \<notin> set (map stage_output_key (take i stages)) \<longrightarrow>
         store_get (stage_output_key (stages ! i)) (session_store (run_pipeline body stages)) =
           Inl (MissingKey (stage_output_key (stages ! i))))"
proof -
  let ?start = "transition (Running 0)
      \<lparr>session_store = [], session_status = Pending, session_history = []\<rparr>"
  let ?before = "run_from body 0 (take i stages) ?start"
  have split: "stages = take i stages @ stages ! i # drop (Suc i) stages"
    using assms(1) by (simp add: id_take_nth_drop)
  have completed: "session_status ?before = Completed"
    using assms(2) by (simp add: run_pipeline_def)
  have failing: "exec_stage body (stages ! i) (session_store ?before) = Inl why"
    using assms(3) by (simp add: run_pipeline_def)
  have "run_from body 0 (take i stages @ stages ! i # drop (Suc i) stages) ?start =
      ?before\<lparr>session_status := Failed (0 + length (take i stages)) why\<rparr>"
    by (rule run_from_failing_stage [OF completed failing])
  then have whole: "run_pipeline body stages = ?before\<lparr>session_status := Failed i why\<rparr>"
    using split assms(1) by (simp add: run_pipeline_def)
  have keys: "map fst (session_store ?before) = map stage_output_key (take i stages)"
    using run_from_completed_keys [OF completed] by (simp add: transition_def)
  have history: "session_history ?before = Pending # map Running [0..<Suc i]"
    using run_from_completed_history [OF completed] assms(1)
    by (simp add: transition_def upt_conv_Cons del: upt_Suc)
  have absent: "store_get k (session_store ?before) = Inl (MissingKey k)"
    if "k \<notin> set (map stage_output_key (take i stages))" for k
  proof -
    have "k \<notin> fst ` set (session_store ?before)"
      using that keys by (metis set_map)
    then have "map_of (session_store ?before) k = None"
      by (simp add: map_of_eq_None_iff)
    then show ?thesis by (simp add: store_get_def)
  qed
  show ?thesis
    unfolding whole
    using keys history absent by (auto simp: run_pipeline_def)
qed

theorem failed_stage_halts_pipeline_witness:
  "run_pipeline
     (\<lambda>st instructions. if stage_identifier st = ''decide'' then Inl ''no answer''
        else Inr (''done: '' @ instructions))
     [\<lparr>stage_identifier = ''investigate'', stage_tools = [''query_metrics'', ''search_logs''],
       stage_output_key = ''investigation_report'', stage_template = ''alert''\<rparr>,
      \<lparr>stage_identifier = ''decide'', stage_tools = [],
       stage_output_key = ''decision'', stage_template = ''{investigation_report}''\<rparr>,
      \<lparr>stage_identifier = ''act'', stage_tools = [''create_work_item''],
       stage_output_key = ''ticket_result'', stage_template = ''{decision}''\<rparr>] =
   \<lparr>session_store = [(''investigation_report'', ''done: alert'')],
    session_status = Failed 1 (BodyFailed ''no answer''),
    session_history = [Pending, Running 0, Running 1]\<rparr>"
proof -
  let ?body = "\<lambda>st instructions. if stage_identifier st = ''decide'' then Inl ''no answer''
        else Inr (''done: '' @ instructions)"
  let ?stages = "[\<lparr>stage_identifier = ''investigate'', stage_tools = [''query_metrics'', ''search_logs''],
       stage_output_key = ''investigation_report'', stage_template = ''alert''\<rparr>,
      \<lparr>stage_identifier = ''decide'', stage_tools = [],
       stage_output_key = ''decision'', stage_template = ''{investigation_report}''\<rparr>,
      \<lparr>stage_identifier = ''act'', stage_tools = [''create_work_item''],
       stage_output_key = ''ticket_result'', stage_template = ''{decision}''\<rparr>]"
  have before: "run_pipeline ?body (take 1 ?stages) =
      \<lparr>session_store = [(''investigation_report'', ''done: alert'')],
       session_status = Completed,
       session_history = [Pending, Running 0, Running 1]\<rparr>"
    by (simp add: run_pipeline_def transition_def exec_stage_def render_def store_set_def)
  have fails: "exec_stage ?body (?stages ! 1) [(''investigation_report'', ''done: alert'')] =
      Inl (BodyFailed ''no answer'')"
    by (simp add: exec_stage_def render_def store_get_def)
  have "session_status (run_pipeline ?body ?stages) = Failed 1 (BodyFailed ''no answer'')
      \<and> session_store (run_pipeline ?body ?stages) = session_store (run_pipeline ?body (take 1 ?stages))
      \<and> session_history (run_pipeline ?body ?stages) = Pending # map Running [0..<Suc 1]"
    using failed_stage_halts_pipeline [of 1 ?stages ?body "BodyFailed ''no answer''"] before fails
    by simp
  then have "session_status (run_pipeline ?body ?stages) = Failed 1 (BodyFailed ''no answer'')
      \<and> session_store (run_pipeline ?body ?stages) = [(''investigation_report'', ''done: alert'')]
      \<and> session_history (run_pipeline ?body ?stages) = [Pending, Running 0, Running 1]"
    using before by (simp add: upt_conv_Cons)
  then show ?thesis
    by (cases "run_pipeline ?body ?stages") simp
qed

section \<open>Responses are routed by id\<close>

lemma issuers_append: "issuers (evs @ evs') = issuers evs @ issuers evs'"
  by (induction evs rule: issuers.induct) auto

lemma engine_run_append: "engine_run (evs @ evs') e = engine_run evs' (engine_run evs e)"
  by (simp add: engine_run_def)

lemma invariant_new: "engine_invariant [] new_engine"
  by (simp add: engine_invariant_def new_engine_def)

lemma invariantD:
  assumes "engine_invariant callers e"
  shows "next_id e = length callers"
    and "distinct (map fst (waiting e))"
    and "(rid, caller) \<in> set (waiting e) \<Longrightarrow> rid < length callers"
    and "(rid, caller) \<in> set (waiting e) \<Longrightarrow> callers ! rid = caller"
    and "distinct (map (fst \<circ> snd) (resolved e))"
    and "(caller, rid, out) \<in> set (resolved e) \<Longrightarrow> rid < length callers"
    and "(caller, rid, out) \<in> set (resolved e) \<Longrightarrow> callers ! rid = caller"
    and "(caller, rid, out) \<in> set (resolved e) \<Longrightarrow> rid \<notin> fst ` set (waiting e)"
    and "(caller, rid, Delivered m) \<in> set (resolved e) \<Longrightarrow> \<exists>payload. m = Response rid payload"
  using assms unfolding engine_invariant_def by blast+

lemma invariantI:
  assumes "next_id e = length callers"
    and "distinct (map fst (waiting e))"
    and "\<And>rid caller. (rid, caller) \<in> set (waiting e) \<Longrightarrow>
           rid < length callers \<and> callers ! rid = caller"
    and "distinct (map (fst \<circ> snd) (resolved e))"
    and "\<And>caller rid out. (caller, rid, out) \<in> set (resolved e) \<Longrightarrow>
           rid < length callers \<and> callers ! rid = caller \<and> rid \<notin> fst ` set (waiting e)"
    and "\<And>caller rid m. (caller, rid, Delivered m) \<in> set (resolved e) \<Longrightarrow>
           \<exists>payload. m = Response rid payload"
  shows "engine_invariant callers e"
  using assms unfolding engine_invariant_def by blast

lemma invariant_issue:
  assumes inv: "engine_invariant callers e"
  shows "engine_invariant (callers @ [caller]) (engine_step (Issue caller method params) e)"
proof -
  note d = invariantD [OF inv]
  let ?n = "length callers"
  let ?e' = "engine_step (Issue caller method params) e"
  have new_w: "?n \<notin> fst ` set (waiting e)"
    using d(3) by fastforce
  have new_r: "?n \<notin> (fst \<circ> snd) ` set (resolved e)"
    using d(6) by fastforce
  have n': "next_id ?e' = Suc ?n"
    by (simp add: d(1))
  have w': "waiting ?e' = (if closed e then waiting e else waiting e @ [(?n, caller)])"
    by (simp add: d(1))
  have r': "resolved ?e' =
      (if closed e then resolved e @ [(caller, ?n, ConnectionClosed)] else resolved e)"
    by (simp add: d(1))
  show ?thesis
  proof (rule invariantI, unfold n' w' r')
    show "Suc ?n = length (callers @ [caller])" by simp
    show "distinct (map fst (if closed e then waiting e else waiting e @ [(?n, caller)]))"
      using d(2) new_w by simp
    show "distinct (map (fst \<circ> snd)
        (if closed e then resolved e @ [(caller, ?n, ConnectionClosed)] else resolved e))"
      using d(5) new_r by simp
  next
    fix rid c
    assume "(rid, c) \<in> set (if closed e then waiting e else waiting e @ [(?n, caller)])"
    then consider "(rid, c) \<in> set (waiting e)" | "rid = ?n" "c = caller"
      by (auto split: if_splits)
    then show "rid < length (callers @ [caller]) \<and> (callers @ [caller]) ! rid = c"
    proof cases
      case 1
      then show ?thesis using d(3) [OF 1] d(4) [OF 1] by (simp add: nth_append)
    next
      case 2
      then show ?thesis by simp
    qed
  next
    fix c rid out
    assume "(c, rid, out) \<in> set
        (if closed e then resolved e @ [(caller, ?n, ConnectionClosed)] else resolved e)"
    then consider "(c, rid, out) \<in> set (resolved e)" | "closed e" "rid = ?n" "c = caller"
      by (auto split: if_splits)
    then show "rid < length (callers @ [caller]) \<and> (callers @ [caller]) ! rid = c \<and>
        rid \<notin> fst ` set (if closed e then waiting e else waiting e @ [(?n, caller)])"
    proof cases
      case 1
      then show ?thesis using d(6) [OF 1] d(7) [OF 1] d(8) [OF 1] by (simp add: nth_append)
    next
      case 2
      then show ?thesis using new_w by simp
    qed
  next
    fix c rid m
    assume "(c, rid, Delivered m) \<in> set
        (if closed e then resolved e @ [(caller, ?n, ConnectionClosed)] else resolved e)"
    then have "(c, rid, Delivered m) \<in> set (resolved e)"
      by (auto split: if_splits)
    then show "\<exists>payload. m = Response rid payload" by (rule d(9))
  qed
qed

lemma invariant_resume:
  assumes inv: "engine_invariant callers e"
    and w: "map_of (waiting e) rid = Some caller"
    and out: "\<And>m. out = Delivered m \<Longrightarrow> \<exists>payload. m = Response rid payload"
  shows "engine_invariant callers
     (e\<lparr>waiting := filter (\<lambda>p. fst p \<noteq> rid) (waiting e),
        resolved := resolved e @ [(caller, rid, out)]\<rparr>)"
proof -
  note d = invariantD [OF inv]
  have mem: "(rid, caller) \<in> set (waiting e)"
    using w by (rule map_of_SomeD)
  have in_w: "rid \<in> fst ` set (waiting e)"
    using mem by force
  have new_r: "rid \<notin> (fst \<circ> snd) ` set (resolved e)"
    using d(8) in_w by fastforce
  let ?e' = "e\<lparr>waiting := filter (\<lambda>p. fst p \<noteq> rid) (waiting e),
        resolved := resolved e @ [(caller, rid, out)]\<rparr>"
  have n': "next_id ?e' = next_id e"
    and w': "waiting ?e' = filter (\<lambda>p. fst p \<noteq> rid) (waiting e)"
    and r': "resolved ?e' = resolved e @ [(caller, rid, out)]"
    by simp_all
  show ?thesis
  proof (rule invariantI, unfold n' w' r')
    show "next_id e = length callers" by (rule d(1))
    show "distinct (map fst (filter (\<lambda>p. fst p \<noteq> rid) (waiting e)))"
      using d(2) by (rule distinct_map_filter)
    show "distinct (map (fst \<circ> snd) (resolved e @ [(caller, rid, out)]))"
      using d(5) new_r by simp
  next
    fix r c
    assume "(r, c) \<in> set (filter (\<lambda>p. fst p \<noteq> rid) (waiting e))"
    then have 1: "(r, c) \<in> set (waiting e)" by simp
    show "r < length callers \<and> callers ! r = c"
      using d(3) [OF 1] d(4) [OF 1] by simp
  next
    fix c r out'
    assume "(c, r, out') \<in> set (resolved e @ [(caller, rid, out)])"
    then consider "(c, r, out') \<in> set (resolved e)" | "c = caller" "r = rid"
      by auto
    then show "r < length callers \<and> callers ! r = c \<and>
        r \<notin> fst ` set (filter (\<lambda>p. fst p \<noteq> rid) (waiting e))"
    proof cases
      case 1
      then show ?thesis using d(6) [OF 1] d(7) [OF 1] d(8) [OF 1] by auto
    next
      case 2
      then show ?thesis using d(3) [OF mem] d(4) [OF mem] by auto
    qed
  next
    fix c r m
    assume "(c, r, Delivered m) \<in> set (resolved e @ [(caller, rid, out)])"
    then consider "(c, r, Delivered m) \<in> set (resolved e)" | "r = rid" "out = Delivered m"
      by auto
    then show "\<exists>payload. m = Response r payload"
    proof cases
      case 1
      then show ?thesis by (rule d(9))
    next
      case 2
      then show ?thesis using out by simp
    qed
  qed
qed

lemma invariant_close:
  assumes inv: "engine_invariant callers e"
  shows "engine_invariant callers (engine_step Close e)"
proof -
  note d = invariantD [OF inv]
  let ?cancelled = "map (\<lambda>(rid, caller). (caller, rid, ConnectionClosed)) (waiting e)"
  have ids: "map (fst \<circ> snd) ?cancelled = map fst (waiting e)"
    by (induction "waiting e") (auto simp: case_prod_beta)
  have mem: "(c, r, out') \<in> set ?cancelled \<longleftrightarrow> (r, c) \<in> set (waiting e) \<and> out' = ConnectionClosed"
    for c r out'
    by auto
  have "x \<notin> fst ` set (waiting e)" if x: "x \<in> (fst \<circ> snd) ` set (resolved e)" for x
  proof -
    obtain c out' where "(c, x, out') \<in> set (resolved e)"
      using x by force
    then show ?thesis by (rule d(8))
  qed
  then have disjoint: "set (map (fst \<circ> snd) (resolved e)) \<inter> set (map fst (waiting e)) = {}"
    by auto
  let ?e' = "engine_step Close e"
  have n': "next_id ?e' = next_id e"
    and w': "waiting ?e' = []"
    and r': "resolved ?e' = resolved e @ ?cancelled"
    by simp_all
  show ?thesis
  proof (rule invariantI)
    show "next_id ?e' = length callers" unfolding n' by (rule d(1))
    show "distinct (map fst (waiting ?e'))" unfolding w' by simp
    show "distinct (map (fst \<circ> snd) (resolved ?e'))"
      using d(5) d(2) disjoint unfolding r' map_append ids by simp
  next
    fix r c
    assume "(r, c) \<in> set (waiting ?e')"
    then show "r < length callers \<and> callers ! r = c" unfolding w' by simp
  next
    fix c r out'
    assume "(c, r, out') \<in> set (resolved ?e')"
    then consider "(c, r, out') \<in> set (resolved e)" | "(r, c) \<in> set (waiting e)"
      unfolding r' using mem by auto
    then show "r < length callers \<and> callers ! r = c \<and> r \<notin> fst ` set (waiting ?e')"
    proof cases
      case 1
      then show ?thesis unfolding w' using d(6) [OF 1] d(7) [OF 1] by simp
    next
      case 2
      then show ?thesis unfolding w' using d(3) [OF 2] d(4) [OF 2] by simp
    qed
  next
    fix c r m
    assume "(c, r, Delivered m) \<in> set (resolved ?e')"
    then have "(c, r, Delivered m) \<in> set (resolved e)"
      unfolding r' using mem by auto
    then show "\<exists>payload. m = Response r payload" by (rule d(9))
  qed
qed

lemma invariant_step:
  assumes inv: "engine_invariant callers e"
  shows "engine_invariant (callers @ issuers [ev]) (engine_step ev e)"
proof (cases ev)
  case (Issue caller m p)
  then show ?thesis using invariant_issue [OF inv] by simp
next
  case (Arrive m)
  show ?thesis
  proof (cases m)
    case (Response rid payload)
    show ?thesis
    proof (cases "map_of (waiting e) rid")
      case None
      have "engine_step ev e = e\<lparr>discarded := discarded e @ [Response rid payload]\<rparr>"
        using Arrive Response None by simp
      then show ?thesis
        using inv Arrive by (simp add: engine_invariant_def)
    next
      case (Some caller)
      have "engine_step ev e =
          e\<lparr>waiting := filter (\<lambda>p. fst p \<noteq> rid) (waiting e),
            resolved := resolved e @ [(caller, rid, Delivered (Response rid payload))]\<rparr>"
        using Arrive Response Some by simp
      then show ?thesis
        using invariant_resume [OF inv Some, of "Delivered (Response rid payload)"] Arrive
        by simp
    qed
  next
    case (Request rid m' p)
    then show ?thesis using inv Arrive by simp
  next
    case (Notification m' p)
    then show ?thesis using inv Arrive by simp
  qed
next
  case (Expire rid)
  show ?thesis
  proof (cases "map_of (waiting e) rid")
    case None
    then show ?thesis using inv Expire by simp
  next
    case (Some caller)
    have "engine_step ev e =
        e\<lparr>waiting := filter (\<lambda>p. fst p \<noteq> rid) (waiting e),
          resolved := resolved e @ [(caller, rid, TimedOut)]\<rparr>"
      using Expire Some by simp
    then show ?thesis
      using invariant_resume [OF inv Some, of TimedOut] Expire by simp
  qed
next
  case Close
  then show ?thesis using invariant_close [OF inv] by simp
qed

lemma invariant_run:
  "engine_invariant callers e \<Longrightarrow>
   engine_invariant (callers @ issuers evs) (engine_run evs e)"
proof (induction evs arbitrary: callers e)
  case Nil
  then show ?case by (simp add: engine_run_def)
next
  case (Cons ev evs)
  have "engine_invariant ((callers @ issuers [ev]) @ issuers evs) (engine_run evs (engine_step ev e))"
    by (rule Cons.IH [OF invariant_step [OF Cons.prems]])
  moreover have "issuers (ev # evs) = issuers [ev] @ issuers evs"
    using issuers_append [of "[ev]" evs] by simp
  ultimately show ?case by (simp add: engine_run_def)
qed

lemma resolved_grows_step: "\<exists>more. resolved (engine_step ev e) = resolved e @ more"
proof (cases ev)
  case (Arrive m)
  then show ?thesis by (cases m) (auto split: option.splits)
qed (auto split: option.splits)

lemma resolved_grows: "\<exists>more. resolved (engine_run evs e) = resolved e @ more"
proof (induction evs arbitrary: e)
  case Nil
  then show ?case by (simp add: engine_run_def)
next
  case (Cons ev evs)
  obtain m1 where m1: "resolved (engine_step ev e) = resolved e @ m1"
    using resolved_grows_step by blast
  obtain m2 where m2: "resolved (engine_run evs (engine_step ev e)) = resolved (engine_step ev e) @ m2"
    using Cons.IH by blast
  show ?case using m1 m2 by (simp add: engine_run_def)
qed

lemma filter_distinct_key:
  assumes "distinct (map f (xs @ x # ys))"
    and "\<And>y. P y \<longleftrightarrow> f y = f x"
  shows "filter P (xs @ x # ys) = [x]"
proof -
  have "f y \<noteq> f x" if "y \<in> set xs \<union> set ys" for y
    using assms(1) that by (auto simp: image_iff)
  then have "filter P xs = []" and "filter P ys = []"
    unfolding filter_empty_conv assms(2) by simp_all
  then show ?thesis by (simp add: assms(2))
qed

text \<open>
  C4. Whatever the order of the events on a Connection, a call is resumed only under
  the id of its own request and at most once, and what it is handed as delivered is a
  Response with that id. A Response that arrives while its id is in flight is delivered
  to the call that issued that id, and that delivery is the only resolution of the id,
  whatever arrived before and whatever arrives after.
\<close>

theorem responses_routed_by_id:
  fixes evs before after :: "'c event list"
  shows "(let e = engine_run evs new_engine in
      (\<forall>(caller, rid, out) \<in> set (resolved e).
          rid < length (issuers evs) \<and> issuers evs ! rid = caller
          \<and> (\<forall>m. out = Delivered m \<longrightarrow> (\<exists>payload. m = Response rid payload)))
      \<and> distinct (map (\<lambda>(caller, rid, out). rid) (resolved e)))
   \<and> (map_of (waiting (engine_run before new_engine)) rid = Some caller \<longrightarrow>
        issuers before ! rid = caller
        \<and> filter (\<lambda>(c, r, out). r = rid)
            (resolved (engine_run (before @ Arrive (Response rid payload) # after) new_engine)) =
           [(caller, rid, Delivered (Response rid payload))])"
proof (intro conjI impI)
  have inv: "engine_invariant (issuers evs) (engine_run evs new_engine)" for evs :: "'c event list"
    using invariant_run [OF invariant_new, of evs] by simp
  have proj: "(\<lambda>(caller, rid, out). rid) = (fst \<circ> snd)"
    by (auto simp: fun_eq_iff)
  show "let e = engine_run evs new_engine in
      (\<forall>(caller, rid, out) \<in> set (resolved e).
          rid < length (issuers evs) \<and> issuers evs ! rid = caller
          \<and> (\<forall>m. out = Delivered m \<longrightarrow> (\<exists>payload. m = Response rid payload)))
      \<and> distinct (map (\<lambda>(caller, rid, out). rid) (resolved e))"
    unfolding Let_def proj
    using invariantD(5,6,7,9) [OF inv [of evs]] by blast
  assume w: "map_of (waiting (engine_run before new_engine)) rid = Some caller"
  let ?e1 = "engine_run before new_engine"
  let ?entry = "(caller, rid, Delivered (Response rid payload))"
  let ?all = "before @ Arrive (Response rid payload) # after"
  have "(rid, caller) \<in> set (waiting ?e1)"
    using w by (rule map_of_SomeD)
  then show "issuers before ! rid = caller"
    using invariantD(4) [OF inv [of before]] by blast
  have "engine_step (Arrive (Response rid payload)) ?e1 =
      ?e1\<lparr>waiting := filter (\<lambda>p. fst p \<noteq> rid) (waiting ?e1),
          resolved := resolved ?e1 @ [?entry]\<rparr>"
    using w by simp
  then have "resolved (engine_run [Arrive (Response rid payload)] ?e1) = resolved ?e1 @ [?entry]"
    by (simp add: engine_run_def)
  moreover obtain more where
    "resolved (engine_run after (engine_run [Arrive (Response rid payload)] ?e1)) =
       resolved (engine_run [Arrive (Response rid payload)] ?e1) @ more"
    using resolved_grows by blast
  moreover have "engine_run ?all new_engine =
      engine_run after (engine_run [Arrive (Response rid payload)] ?e1)"
    using engine_run_append [of before "Arrive (Response rid payload) # after" new_engine]
      engine_run_append [of "[Arrive (Response rid payload)]" after ?e1]
    by simp
  ultimately have shape: "resolved (engine_run ?all new_engine) = resolved ?e1 @ ?entry # more"
    by simp
  have "distinct (map (fst \<circ> snd) (resolved ?e1 @ ?entry # more))"
    using invariantD(5) [OF inv [of ?all]] shape by simp
  then have "filter (\<lambda>(c, r, out). r = rid) (resolved ?e1 @ ?entry # more) = [?entry]"
    by (rule filter_distinct_key) auto
  then show "filter (\<lambda>(c, r, out). r = rid) (resolved (engine_run ?all new_engine)) = [?entry]"
    unfolding shape .
qed


theorem responses_routed_by_id_witness:
  "resolved (engine_run
      [Issue ''investigate'' ''tools/call'' ''query_metrics'',
       Issue ''act'' ''tools/call'' ''search_logs'',
       Arrive (Response 1 ''logs''),
       Arrive (Response 0 ''metrics''),
       Arrive (Response 1 ''again'')] new_engine) =
     [(''act'', 1, Delivered (Response 1 ''logs'')),
      (''investigate'', 0, Delivered (Response 0 ''metrics''))]
   \<and> discarded (engine_run
      [Issue ''investigate'' ''tools/call'' ''query_metrics'',
       Issue ''act'' ''tools/call'' ''search_logs'',
       Arrive (Response 1 ''logs''),
       Arrive (Response 0 ''metrics''),
       Arrive (Response 1 ''again'')] new_engine) = [Response 1 ''again'']
   \<and> issuers
      [Issue ''investigate'' ''tools/call'' ''query_metrics'',
       Issue ''act'' ''tools/call'' ''search_logs''] ! 1 = ''act''
   \<and> filter (\<lambda>(c, r, out). r = 1) (resolved (engine_run
      ([Issue ''investigate'' ''tools/call'' ''query_metrics'',
        Issue ''act'' ''tools/call'' ''search_logs'']
       @ Arrive (Response 1 ''logs'')
       # [Arrive (Response 0 ''metrics''), Arrive (Response 1 ''again'')]) new_engine)) =
     [(''act'', 1, Delivered (Response 1 ''logs''))]
   \<and> distinct (map (\<lambda>(caller, rid, out). rid) (resolved (engine_run
      [Issue ''investigate'' ''tools/call'' ''query_metrics'',
       Issue ''act'' ''tools/call'' ''search_logs'',
       Arrive (Response 1 ''logs''),
       Arrive (Response 0 ''metrics''),
       Arrive (Response 1 ''again'')] new_engine)))"
proof -
  let ?before = "[Issue ''investigate'' ''tools/call'' ''query_metrics'',
        Issue ''act'' ''tools/call'' ''search_logs'']"
  let ?after = "[Arrive (Response 0 ''metrics''), Arrive (Response 1 ''again'')]"
  have in_flight: "map_of (waiting (engine_run ?before new_engine)) 1 = Some ''act''"
    by (simp add: engine_run_def new_engine_def)
  have routed: "issuers ?before ! 1 = ''act''
      \<and> filter (\<lambda>(c, r, out). r = 1)
          (resolved (engine_run (?before @ Arrive (Response 1 ''logs'') # ?after) new_engine)) =
         [(''act'', 1, Delivered (Response 1 ''logs''))]"
    using responses_routed_by_id [of "?before @ Arrive (Response 1 ''logs'') # ?after"
        ?before 1 "''act''" "''logs''" ?after] in_flight
    by blast
  have once: "distinct (map (\<lambda>(caller, rid, out). rid)
      (resolved (engine_run (?before @ Arrive (Response 1 ''logs'') # ?after) new_engine)))"
    using responses_routed_by_id [of "?before @ Arrive (Response 1 ''logs'') # ?after"
        ?before 1 "''act''" "''logs''" ?after]
    unfolding Let_def by blast
  have run: "engine_run (?before @ Arrive (Response 1 ''logs'') # ?after) new_engine =
      \<lparr>next_id = 2, waiting = [],
       written = [Request 0 ''tools/call'' ''query_metrics'', Request 1 ''tools/call'' ''search_logs''],
       resolved = [(''act'', 1, Delivered (Response 1 ''logs'')),
                   (''investigate'', 0, Delivered (Response 0 ''metrics''))],
       discarded = [Response 1 ''again''], closed = False\<rparr>"
    by (simp add: engine_run_def new_engine_def)
  show ?thesis
    using routed once run by simp
qed

end
